theory Spec2Isabelle
  imports Complex_Main "HOL-Library.AList"
begin

section \<open>AtomModelTrainer: reconstruction of log-F0 from atoms and its stitching\<close>

text \<open>
  A shallow embedding of \<^verbatim>\<open>idiaptts/src/model_trainers/wcad/AtomModelTrainer.py\<close>.
  Python floats are read as real numbers, Python integers as \<open>int\<close>, a raised
  exception as the left injection of a sum.
\<close>

subsection \<open>Exceptions\<close>

datatype error =
    ZeroDivisionError
  | FileNotFoundError
  | TypeError
  | ValueError
  | IndexError
  | KeyError

subsection \<open>The hyper-parameter container\<close>

text \<open>
  The container class is not among the sources; the trainer reads and assigns its
  attributes. An attribute that \<^verbatim>\<open>hasattr\<close> may find absent has an outer
  \<open>option\<close> (\<open>None\<close>: no such attribute), and one that may hold Python's
  \<^verbatim>\<open>None\<close> an inner one.
\<close>

record hparams =
  synth_acoustic_model_path :: "string option"
  num_coded_sps :: int
  synth_file_suffix :: string
  k_atoms :: int
  frame_size_ms :: int
  min_atom_amp :: real
  thetas :: "real list"
  world_dir :: "string option option"
  weight_zero :: "real option option"
  weight_non_zero :: "real option option"

text \<open>
  \<^verbatim>\<open>hparams.add_hparam(name, value)\<close> for the two weights: the container gains the
  attribute with the given value.
\<close>

definition add_hparam_weight_non_zero :: "real \<Rightarrow> hparams \<Rightarrow> hparams" where
  "add_hparam_weight_non_zero v hp = hp\<lparr>weight_non_zero := Some (Some v)\<rparr>"

definition add_hparam_weight_zero :: "real \<Rightarrow> hparams \<Rightarrow> hparams" where
  "add_hparam_weight_zero v hp = hp\<lparr>weight_zero := Some (Some v)\<rparr>"

subsection \<open>The constructor's weights (lines 72 to 80)\<close>

text \<open>
  \<^verbatim>\<open>non_zero_occurrence = min(0.99, 0.02 / len(thetas))\<close> divides by the number of
  thetas, so an empty list raises.
\<close>

definition non_zero_occurrence :: "real list \<Rightarrow> error + real" where
  "non_zero_occurrence ths =
     (if length ths = 0 then Inl ZeroDivisionError
      else Inr (min 0.99 (0.02 / real (length ths))))"

definition init_weights :: "real list \<Rightarrow> hparams \<Rightarrow> error + hparams" where
  "init_weights ths hp =
     (case non_zero_occurrence ths of
        Inl e \<Rightarrow> Inl e
      | Inr nz \<Rightarrow>
          (let zero_occurrence = 1 - nz in
           case weight_zero hp of
             None \<Rightarrow>
               Inr (add_hparam_weight_zero (1 / zero_occurrence)
                      (add_hparam_weight_non_zero (1 / nz) hp))
           | Some None \<Rightarrow>
               Inr (hp\<lparr>weight_non_zero := Some (Some (1 / nz)),
                        weight_zero := Some (Some (1 / zero_occurrence))\<rparr>)
           | Some (Some w) \<Rightarrow> Inr hp))"

subsection \<open>Arrays\<close>

text \<open>
  A two-dimensional buffer of frames (rows) and features (columns). An \<open>ndarray\<close> is a
  window on the frames of a buffer of the store: slicing along the frames gives another
  window on the same buffer, and a write through the window changes the buffer.
\<close>

record buffer =
  nrows :: nat
  ncols :: nat
  cell :: "nat \<Rightarrow> nat \<Rightarrow> real"

record ndarray =
  buf :: nat
  off :: nat
  len :: nat

text \<open>A slice bound \<open>i\<close> on an axis of \<open>n\<close> entries, as Python clips it.\<close>

definition slice_bound :: "nat \<Rightarrow> int \<Rightarrow> nat" where
  "slice_bound n i = (if i < 0 then nat (max 0 (int n + i)) else min n (nat i))"

text \<open>\<^verbatim>\<open>sample[i:]\<close> and \<^verbatim>\<open>sample[:j]\<close> along the frames.\<close>

definition slice_from :: "ndarray \<Rightarrow> int \<Rightarrow> ndarray" where
  "slice_from a i =
     (let s = slice_bound (len a) i in a\<lparr>off := off a + s, len := len a - s\<rparr>)"

definition slice_upto :: "ndarray \<Rightarrow> int \<Rightarrow> ndarray" where
  "slice_upto a j = a\<lparr>len := slice_bound (len a) j\<rparr>"

text \<open>
  Modelled from the spec: \<^verbatim>\<open>WorldFeatLabelGen.trim_end_sample(sample, length, reverse)\<close>
  is not among the sources. The reconstruction trims \<open>length\<close> frames from the end of
  the sample, and from its beginning when \<open>reverse\<close> is set; trimming no frame leaves
  the sample as it is. The trimmed sample is a slice of the sample, on the same buffer:
  this is how the log-F0 written into the trimmed sample is stitched into the feature
  matrix. A negative length, which the spec does not describe, is read as the slice
  bound it becomes.
\<close>

definition trim_end_sample :: "ndarray \<Rightarrow> int \<Rightarrow> bool \<Rightarrow> ndarray" where
  "trim_end_sample sample l reverse =
     (if l = 0 then sample
      else if reverse then slice_from sample l
      else slice_upto sample (- l))"

text \<open>\<^verbatim>\<open>int(len_diff / 2)\<close>: the float quotient, truncated towards zero.\<close>

definition int_half :: "int \<Rightarrow> int" where
  "int_half d = (if 0 \<le> d then d div 2 else - ((- d) div 2))"

subsection \<open>The trimming of run_atom_synth (lines 388 to 390)\<close>

definition trim_full_sample :: "ndarray \<Rightarrow> nat \<Rightarrow> ndarray" where
  "trim_full_sample full_sample len_lf0 =
     (let len_diff = int (len full_sample) - int len_lf0;
          full_sample1 = trim_end_sample full_sample (int_half len_diff) True
      in trim_end_sample full_sample1 (len_diff - int_half len_diff) False)"

subsection \<open>The trimming of gen_figure_from_output (lines 138 to 140)\<close>

definition gen_figure_trim :: "ndarray \<Rightarrow> nat \<Rightarrow> ndarray" where
  "gen_figure_trim original_lf0 len_lf0 =
     (let len_diff = int (len original_lf0) - int len_lf0;
          original_lf01 = trim_end_sample original_lf0 (int_half len_diff) False
      in trim_end_sample original_lf01 (int_half len_diff + 1) True)"

subsection \<open>Dictionaries, the store and the missing collaborators\<close>

text \<open>
  A Python dictionary keeps its keys in insertion order: an association list, read with
  \<open>map_of\<close> and assigned with \<open>AList.update\<close>.
\<close>

type_synonym 'v dict = "(string \<times> 'v) list"

text \<open>
  An array of any rank, as the network's output for one utterance: its shape and its
  entries. Only the shape is read by the trainer.
\<close>

record nparray =
  shape :: "nat list"
  entries :: "real list"

text \<open>
  The state the trainer's methods work on: the hyper-parameter object they all share,
  the store of feature buffers with its next free address, and the world outside
  (files written, audio produced).
\<close>

record 'w state =
  hpar :: hparams
  heap :: "nat \<Rightarrow> buffer"
  fresh :: nat
  world :: 'w

text \<open>
  What the trainer calls and the sources do not hold, as parameters:
  \<^item> \<open>labels_to_atoms\<close>: \<^verbatim>\<open>AtomLabelGen.labels_to_atoms(label, k, frame_size, amp_threshold)\<close>;
  \<^item> \<open>atom_signal\<close>: the value of the atoms' dense signal at a frame;
  \<^item> \<open>phrase_file\<close>: the float32 content of an id's phrase file under the label
    directory, \<open>None\<close> when it cannot be read;
  \<^item> \<open>f0_silence_threshold\<close>, \<open>lf0_zero\<close>: the constants of \<^verbatim>\<open>WorldFeatLabelGen\<close>;
  \<^item> \<open>world_load_sample\<close>: \<^verbatim>\<open>WorldFeatLabelGen.load_sample(id_name, world_dir, num_coded_sps)\<close>;
  \<^item> \<open>dir_extracted\<close>: the directory of the extracted acoustic features;
  \<^item> \<open>atom_load_sample\<close>: \<^verbatim>\<open>AtomLabelGen.load_sample(id_name, dir_labels, len(thetas))\<close>;
  \<^item> \<open>acoustic_synth\<close>: the acoustic model trainer and the base class's \<^verbatim>\<open>synth\<close>,
    which save the generated features as files;
  \<^item> \<open>run_world_synth\<close>: \<^verbatim>\<open>Synthesiser.run_world_synth(full_output, hparams)\<close>;
  \<^item> \<open>base_synthesize\<close>: \<^verbatim>\<open>ModelTrainer.synthesize(self, id_list, full_output, hparams)\<close>.
  The last two receive the hyper-parameter object and the arrays, so they may change
  the whole state.
\<close>

record ('a, 'w) env =
  labels_to_atoms :: "nparray \<Rightarrow> int \<Rightarrow> int \<Rightarrow> real \<Rightarrow> 'a"
  atom_signal :: "'a \<Rightarrow> nat \<Rightarrow> real"
  phrase_file :: "string \<Rightarrow> real list option"
  f0_silence_threshold :: real
  lf0_zero :: real
  world_load_sample :: "string \<Rightarrow> string \<Rightarrow> int \<Rightarrow> error + buffer"
  dir_extracted :: string
  atom_load_sample :: "string \<Rightarrow> nat \<Rightarrow> error + nparray"
  acoustic_synth :: "string \<Rightarrow> hparams \<Rightarrow> string list \<Rightarrow> 'w \<Rightarrow> error + 'w"
  run_world_synth :: "ndarray dict option \<Rightarrow> 'w state \<Rightarrow> error + 'w state"
  base_synthesize :: "string list \<Rightarrow> ndarray dict \<Rightarrow> 'w state \<Rightarrow> error + 'w state"

text \<open>\<^verbatim>\<open>math.log(x)\<close> raises outside its domain.\<close>

definition math_log :: "real \<Rightarrow> error + real" where
  "math_log x = (if 0 < x then Inr (ln x) else Inl ValueError)"

text \<open>\<^verbatim>\<open>len(a)\<close> of an array: its first dimension; an array of rank 0 has none.\<close>

definition py_len :: "nparray \<Rightarrow> error + nat" where
  "py_len a = (case shape a of [] \<Rightarrow> Inl TypeError | n # _ \<Rightarrow> Inr n)"

text \<open>\<^verbatim>\<open>np.expand_dims(label, axis=1)\<close>: a dimension of size 1 after the first.\<close>

definition expand_dims_1 :: "nparray \<Rightarrow> nparray" where
  "expand_dims_1 a = a\<lparr>shape := take 1 (shape a) @ [1] @ drop 1 (shape a)\<rparr>"

text \<open>An index into an axis of \<open>n\<close> entries; a negative one counts from the end.\<close>

definition py_index :: "nat \<Rightarrow> int \<Rightarrow> nat option" where
  "py_index n c =
     (if 0 \<le> c \<and> c < int n then Some (nat c)
      else if - int n \<le> c \<and> c < 0 then Some (nat (int n + c))
      else None)"

text \<open>
  \<^verbatim>\<open>a[:, c] = vals\<close> through the window \<open>a\<close>: the column of the buffer is written on
  the window's frames. A one-dimensional \<open>vals\<close> must have as many entries as the
  window has frames, or one entry, which is then broadcast.
\<close>

definition set_column :: "ndarray \<Rightarrow> int \<Rightarrow> real list \<Rightarrow> 'w state \<Rightarrow> error + 'w state" where
  "set_column a c vals st =
     (let b = heap st (buf a) in
      case py_index (ncols b) c of
        None \<Rightarrow> Inl IndexError
      | Some j \<Rightarrow>
          if length vals = len a \<or> length vals = 1 then
            Inr (st\<lparr>heap := (heap st)(buf a := b\<lparr>cell :=
                   (\<lambda>t c'. if c' = j \<and> off a \<le> t \<and> t < off a + len a
                            then (if length vals = 1 then vals ! 0 else vals ! (t - off a))
                            else cell b t c')\<rparr>)\<rparr>)
          else Inl ValueError)"

text \<open>\<^verbatim>\<open>a[:, c]\<close>: the column \<open>c\<close> of the window, and the column of a whole buffer.\<close>

definition column :: "'w state \<Rightarrow> ndarray \<Rightarrow> nat \<Rightarrow> real list" where
  "column st a c = map (\<lambda>t. cell (heap st (buf a)) (off a + t) c) [0..<len a]"

definition buffer_column :: "buffer \<Rightarrow> nat \<Rightarrow> real list" where
  "buffer_column b c = map (\<lambda>t. cell b t c) [0..<nrows b]"

subsection \<open>get_recon_from_synth_output (lines 198 to 218)\<close>

text \<open>
  Modelled from the spec: \<^verbatim>\<open>AtomLabelGen.atoms_to_lf0(atoms, num_frames)\<close> is not among
  the sources. It converts the sparse atoms into a dense log-F0 signal of \<open>num_frames\<close>
  frames; the value at each frame is the parameter \<open>atom_signal\<close>.
\<close>

definition atoms_to_lf0 :: "('a, 'w) env \<Rightarrow> 'a \<Rightarrow> nat \<Rightarrow> real list" where
  "atoms_to_lf0 env atoms num_frames = map (atom_signal env atoms) [0..<num_frames]"

text \<open>\<^verbatim>\<open>reconstruction[:len(phrase_curve)] += phrase_curve\<close>\<close>

definition add_phrase :: "real list \<Rightarrow> real list \<Rightarrow> real list" where
  "add_phrase reconstruction phrase_curve =
     map2 (+) (take (length phrase_curve) reconstruction) phrase_curve
       @ drop (length phrase_curve) reconstruction"

text \<open>\<^verbatim>\<open>reconstruction[reconstruction <= thr] = zero\<close>\<close>

definition silence :: "real \<Rightarrow> real \<Rightarrow> real list \<Rightarrow> real list" where
  "silence thr zero reconstruction = map (\<lambda>x. if x \<le> thr then zero else x) reconstruction"

text \<open>\<^verbatim>\<open>if len(label.shape) == 2: label = np.expand_dims(label, axis=1)\<close>\<close>

definition recon_label :: "nparray \<Rightarrow> nparray" where
  "recon_label label = (if length (shape label) = 2 then expand_dims_1 label else label)"

text \<open>The body of the loop, for one entry of \<open>synth_output\<close>.\<close>

definition recon_sample ::
  "('a, 'w) env \<Rightarrow> hparams \<Rightarrow> string \<Rightarrow> nparray \<Rightarrow> error + real list" where
  "recon_sample env hp id_name label0 =
     (let label = recon_label label0;
          atoms = labels_to_atoms env label (k_atoms hp) (frame_size_ms hp) (min_atom_amp hp)
      in case py_len label of
           Inl e \<Rightarrow> Inl e
         | Inr num_frames \<Rightarrow>
             (let reconstruction = atoms_to_lf0 env atoms num_frames in
              case phrase_file env id_name of
                None \<Rightarrow> Inl FileNotFoundError
              | Some content \<Rightarrow>
                  (let phrase_curve = take (length reconstruction) content;
                       reconstruction1 = add_phrase reconstruction phrase_curve
                   in case math_log (f0_silence_threshold env) of
                        Inl e \<Rightarrow> Inl e
                      | Inr thr \<Rightarrow> Inr (silence thr (lf0_zero env) reconstruction1))))"

fun recon_loop ::
  "('a, 'w) env \<Rightarrow> hparams \<Rightarrow> nparray dict \<Rightarrow> real list dict \<Rightarrow> error + real list dict" where
  "recon_loop env hp [] recon_dict = Inr recon_dict"
| "recon_loop env hp ((id_name, label) # items) recon_dict =
     (case recon_sample env hp id_name label of
        Inl e \<Rightarrow> Inl e
      | Inr reconstruction \<Rightarrow>
          recon_loop env hp items (AList.update id_name reconstruction recon_dict))"

definition get_recon_from_synth_output ::
  "('a, 'w) env \<Rightarrow> nparray dict \<Rightarrow> hparams \<Rightarrow> error + real list dict" where
  "get_recon_from_synth_output env synth_output hp = recon_loop env hp synth_output []"

subsection \<open>load_extracted_audio_features (lines 261 to 271)\<close>

definition extracted_world_dir :: "('a, 'w) env \<Rightarrow> hparams \<Rightarrow> string" where
  "extracted_world_dir env hp =
     (case world_dir hp of Some (Some d) \<Rightarrow> d | _ \<Rightarrow> dir_extracted env)"

text \<open>Each loaded sample is a new buffer of the store, and the entry a window on all of it.\<close>

fun load_loop ::
  "('a, 'w) env \<Rightarrow> string list \<Rightarrow> ndarray dict \<Rightarrow> 'w state \<Rightarrow> error + (ndarray dict \<times> 'w state)" where
  "load_loop env [] org_output st = Inr (org_output, st)"
| "load_loop env (id_name # ids) org_output st =
     (case world_load_sample env id_name (extracted_world_dir env (hpar st))
             (num_coded_sps (hpar st)) of
        Inl e \<Rightarrow> Inl e
      | Inr b \<Rightarrow>
          load_loop env ids
            (AList.update id_name \<lparr>buf = fresh st, off = 0, len = nrows b\<rparr> org_output)
            (st\<lparr>heap := (heap st)(fresh st := b), fresh := Suc (fresh st)\<rparr>))"

definition load_extracted_audio_features ::
  "('a, 'w) env \<Rightarrow> 'v dict \<Rightarrow> 'w state \<Rightarrow> error + (ndarray dict \<times> 'w state)" where
  "load_extracted_audio_features env synth_output st =
     load_loop env (map fst synth_output) [] st"

subsection \<open>generate_audio_features (lines 273 to 315)\<close>

text \<open>
  The method builds its log message from the model path, runs the acoustic model
  through the base class's \<^verbatim>\<open>synth\<close> and restores the trainer's handlers. It has no
  \<^verbatim>\<open>return\<close> statement: its result is Python's \<^verbatim>\<open>None\<close>.
\<close>

definition generate_audio_features ::
  "('a, 'w) env \<Rightarrow> string list \<Rightarrow> 'w state \<Rightarrow> error + (ndarray dict option \<times> 'w state)" where
  "generate_audio_features env id_list st =
     (case synth_acoustic_model_path (hpar st) of
        None \<Rightarrow> Inl TypeError
      | Some path \<Rightarrow>
          (case acoustic_synth env path (hpar st) id_list (world st) of
             Inl e \<Rightarrow> Inl e
           | Inr w \<Rightarrow> Inr (None, st\<lparr>world := w\<rparr>)))"

subsection \<open>run_atom_synth (lines 372 to 396)\<close>

text \<open>\<^verbatim>\<open>vuv = np.ones(lf0.shape); vuv[lf0 <= thr] = 0.0\<close>\<close>

definition vuv_mask :: "real \<Rightarrow> real list \<Rightarrow> real list" where
  "vuv_mask thr lf0 = map (\<lambda>x. if x \<le> thr then 0 else 1) lf0"

text \<open>
  The body of the loop. \<open>full_output\<close> is \<open>None\<close> when it is Python's \<^verbatim>\<open>None\<close>, which
  cannot be subscripted. The local name \<open>full_sample\<close> is rebound to the trimmed
  window; the entry of \<open>full_output\<close> is not.
\<close>

definition stitch ::
  "('a, 'w) env \<Rightarrow> ndarray dict option \<Rightarrow> string \<Rightarrow> real list \<Rightarrow> 'w state \<Rightarrow> error + 'w state" where
  "stitch env full_output id_name lf0 st =
     (case full_output of
        None \<Rightarrow> Inl TypeError
      | Some d \<Rightarrow>
          (case map_of d id_name of
             None \<Rightarrow> Inl KeyError
           | Some full_sample0 \<Rightarrow>
               (let full_sample = trim_full_sample full_sample0 (length lf0) in
                case math_log (f0_silence_threshold env) of
                  Inl e \<Rightarrow> Inl e
                | Inr thr \<Rightarrow>
                    (let vuv = vuv_mask thr lf0 in
                     case set_column full_sample (num_coded_sps (hpar st)) lf0 st of
                       Inl e \<Rightarrow> Inl e
                     | Inr st1 \<Rightarrow>
                         set_column full_sample (num_coded_sps (hpar st1) + 1) vuv st1))))"

fun stitch_loop ::
  "('a, 'w) env \<Rightarrow> ndarray dict option \<Rightarrow> real list dict \<Rightarrow> 'w state \<Rightarrow> error + 'w state" where
  "stitch_loop env full_output [] st = Inr st"
| "stitch_loop env full_output ((id_name, lf0) # items) st =
     (case stitch env full_output id_name lf0 st of
        Inl e \<Rightarrow> Inl e
      | Inr st1 \<Rightarrow> stitch_loop env full_output items st1)"

definition run_atom_synth ::
  "('a, 'w) env \<Rightarrow> string list \<Rightarrow> nparray dict \<Rightarrow> 'w state
     \<Rightarrow> error + (ndarray dict option \<times> 'w state)" where
  "run_atom_synth env file_id_list synth_output st =
     (case (if synth_acoustic_model_path (hpar st) = None
            then (case load_extracted_audio_features env synth_output st of
                    Inl e \<Rightarrow> Inl e
                  | Inr (d, st1) \<Rightarrow> Inr (Some d, st1))
            else generate_audio_features env file_id_list st) of
        Inl e \<Rightarrow> Inl e
      | Inr (full_output, st1) \<Rightarrow>
          (case get_recon_from_synth_output env synth_output (hpar st1) of
             Inl e \<Rightarrow> Inl e
           | Inr recon_dict \<Rightarrow>
               (case stitch_loop env full_output recon_dict st1 of
                  Inl e \<Rightarrow> Inl e
                | Inr st2 \<Rightarrow> Inr (full_output, st2))))"

text \<open>
  The column \<open>c\<close> of the matrix that \<open>run_atom_synth\<close> returns for \<open>id_name\<close>;
  \<open>None\<close> when it raises or returns no matrix for the id.
\<close>

definition returned_column ::
  "('a, 'w) env \<Rightarrow> string list \<Rightarrow> nparray dict \<Rightarrow> 'w state \<Rightarrow> string \<Rightarrow> nat
     \<Rightarrow> real list option" where
  "returned_column env file_id_list synth_output st id_name c =
     (case run_atom_synth env file_id_list synth_output st of
        Inr (Some d, st') \<Rightarrow>
          (case map_of d id_name of
             Some a \<Rightarrow> Some (column st' a c)
           | None \<Rightarrow> None)
      | _ \<Rightarrow> None)"

subsection \<open>synthesize (lines 317 to 323)\<close>

definition synthesize ::
  "('a, 'w) env \<Rightarrow> string list \<Rightarrow> nparray dict \<Rightarrow> 'w state \<Rightarrow> error + 'w state" where
  "synthesize env id_list synth_output st =
     (case run_atom_synth env id_list synth_output st of
        Inl e \<Rightarrow> Inl e
      | Inr (full_output, st1) \<Rightarrow> run_world_synth env full_output st1)"

subsection \<open>synth_ref_wcad (lines 325 to 342)\<close>

fun load_atoms_loop ::
  "('a, 'w) env \<Rightarrow> hparams \<Rightarrow> string list \<Rightarrow> nparray dict \<Rightarrow> error + nparray dict" where
  "load_atoms_loop env hp [] synth_output = Inr synth_output"
| "load_atoms_loop env hp (id_name # ids) synth_output =
     (case atom_load_sample env id_name (length (thetas hp)) of
        Inl e \<Rightarrow> Inl e
      | Inr label \<Rightarrow> load_atoms_loop env hp ids (AList.update id_name label synth_output))"

definition set_suffix :: "string \<Rightarrow> 'w state \<Rightarrow> 'w state" where
  "set_suffix s st = st\<lparr>hpar := (hpar st)\<lparr>synth_file_suffix := s\<rparr>\<rparr>"

definition synth_ref_wcad ::
  "('a, 'w) env \<Rightarrow> string list \<Rightarrow> 'w state \<Rightarrow> error + 'w state" where
  "synth_ref_wcad env file_id_list st =
     (case load_atoms_loop env (hpar st) file_id_list [] of
        Inl e \<Rightarrow> Inl e
      | Inr synth_output \<Rightarrow>
          (case run_atom_synth env file_id_list synth_output st of
             Inl e \<Rightarrow> Inl e
           | Inr (full_output, st1) \<Rightarrow>
               (let old_synth_file_suffix = synth_file_suffix (hpar st1);
                    st2 = set_suffix (old_synth_file_suffix @ ''_wcad_ref'') st1
                in case run_world_synth env full_output st2 of
                     Inl e \<Rightarrow> Inl e
                   | Inr st3 \<Rightarrow> Inr (set_suffix old_synth_file_suffix st3))))"

subsection \<open>synth_phrase (lines 344 to 370)\<close>

text \<open>\<^verbatim>\<open>synth_output[id_name] = None\<close> for every id of the list.\<close>

definition empty_synth_output :: "string list \<Rightarrow> unit dict" where
  "empty_synth_output file_id_list = fold (\<lambda>id_name d. AList.update id_name () d) file_id_list []"

text \<open>The lf0 component, the third column from the end, is overridden by the phrase curve.\<close>

fun phrase_loop ::
  "('a, 'w) env \<Rightarrow> ndarray dict \<Rightarrow> string list \<Rightarrow> 'w state \<Rightarrow> error + 'w state" where
  "phrase_loop env full_output [] st = Inr st"
| "phrase_loop env full_output (id_name # ids) st =
     (case map_of full_output id_name of
        None \<Rightarrow> Inl KeyError
      | Some labels \<Rightarrow>
          (case phrase_file env id_name of
             None \<Rightarrow> Inl FileNotFoundError
           | Some content \<Rightarrow>
               (let phrase_curve = take (len labels) content in
                case set_column labels (- 3) (take (len labels) phrase_curve) st of
                  Inl e \<Rightarrow> Inl e
                | Inr st1 \<Rightarrow> phrase_loop env full_output ids st1)))"

definition synth_phrase ::
  "('a, 'w) env \<Rightarrow> string list \<Rightarrow> 'w state \<Rightarrow> error + 'w state" where
  "synth_phrase env file_id_list st =
     (case load_extracted_audio_features env (empty_synth_output file_id_list) st of
        Inl e \<Rightarrow> Inl e
      | Inr (full_output, st1) \<Rightarrow>
          (case phrase_loop env full_output file_id_list st1 of
             Inl e \<Rightarrow> Inl e
           | Inr st2 \<Rightarrow>
               (let old_synth_file_suffix = synth_file_suffix (hpar st2);
                    st3 = set_suffix (old_synth_file_suffix @ ''_phrase'') st2
                in case base_synthesize env file_id_list full_output st3 of
                     Inl e \<Rightarrow> Inl e
                   | Inr st4 \<Rightarrow> Inr (set_suffix old_synth_file_suffix st4))))"

subsection \<open>Concrete inputs\<close>

definition hp0 :: hparams where
  "hp0 = \<lparr>synth_acoustic_model_path = None, num_coded_sps = 1, synth_file_suffix = ''_x'',
          k_atoms = 6, frame_size_ms = 5, min_atom_amp = 0.3, thetas = [0.5, 1],
          world_dir = None, weight_zero = None, weight_non_zero = None\<rparr>"

definition label0 :: nparray where
  "label0 = \<lparr>shape = [3, 2], entries = [2, 0, - 5, 0, 1 / 2, 0]\<rparr>"

text \<open>
  A label of three frames for two thetas, whose atoms are its entries and whose dense
  signal at a frame is the sum of the frame's two entries: 2, -5 and 1/2.
  A feature file of five frames and four features, and collaborators that keep a log
  of the vocoder's calls as the outside world: the dictionary each call received and
  the file suffix it saw.
\<close>

definition sample0 :: buffer where
  "sample0 = \<lparr>nrows = 5, ncols = 4, cell = (\<lambda>t c. 7)\<rparr>"

definition env0 :: "(real list, (ndarray dict option \<times> string) list) env" where
  "env0 = \<lparr>labels_to_atoms = (\<lambda>label k fs amp. entries label),
           atom_signal = (\<lambda>atoms t.
              if 2 * t + 1 < length atoms then atoms ! (2 * t) + atoms ! (2 * t + 1) else 0),
           phrase_file = (\<lambda>id_name.
              if id_name = ''utt1'' then Some [1, 2]
              else if id_name = ''utt2'' then Some [1, 2, 3, 4, 5, 6]
              else None),
           f0_silence_threshold = 1,
           lf0_zero = - 1,
           world_load_sample = (\<lambda>id_name dir n.
              if id_name = ''utt1'' \<or> id_name = ''utt2'' then Inr sample0
              else Inl FileNotFoundError),
           dir_extracted = ''WORLD'',
           atom_load_sample = (\<lambda>id_name n.
              Inr \<lparr>shape = [3, n], entries = [2, 0, - 5, 0, 1 / 2, 0]\<rparr>),
           acoustic_synth = (\<lambda>path hp ids w. Inr w),
           run_world_synth = (\<lambda>full_output st.
              Inr (st\<lparr>world := world st @ [(full_output, synth_file_suffix (hpar st))]\<rparr>)),
           base_synthesize = (\<lambda>ids full_output st.
              Inr (st\<lparr>world := world st @ [(Some full_output, synth_file_suffix (hpar st))]\<rparr>))\<rparr>"

definition st0 :: "(ndarray dict option \<times> string) list state" where
  "st0 = \<lparr>hpar = hp0, heap = (\<lambda>a. \<lparr>nrows = 0, ncols = 0, cell = (\<lambda>t c. 0)\<rparr>),
          fresh = 0, world = []\<rparr>"

text \<open>The state after the sample of \<open>utt1\<close> has been loaded, and the dictionary that holds it.\<close>

definition st0_loaded :: "(ndarray dict option \<times> string) list state" where
  "st0_loaded = st0\<lparr>heap := (heap st0)(0 := sample0), fresh := 1\<rparr>"

definition full_output0 :: "ndarray dict" where
  "full_output0 = [(''utt1'', \<lparr>buf = 0, off = 0, len = 5\<rparr>)]"

text \<open>The initial state with an acoustic model to generate the features with.\<close>

definition st0_acoustic :: "(ndarray dict option \<times> string) list state" where
  "st0_acoustic = st0\<lparr>hpar := hp0\<lparr>synth_acoustic_model_path := Some ''acoustic_model.nn''\<rparr>\<rparr>"

subsection \<open>Invariants of the store\<close>

text \<open>
  Different ids of a dictionary of arrays have different buffers; every entry is a
  window on the whole of an allocated buffer.
\<close>

definition separate :: "ndarray dict \<Rightarrow> bool" where
  "separate d =
     (\<forall>i j v w. map_of d i = Some v \<longrightarrow> map_of d j = Some w \<longrightarrow> i \<noteq> j \<longrightarrow> buf v \<noteq> buf w)"

definition wf_dict :: "ndarray dict \<Rightarrow> 'w state \<Rightarrow> bool" where
  "wf_dict d st =
     ((\<forall>i v. map_of d i = Some v \<longrightarrow>
         buf v < fresh st \<and> off v = 0 \<and> len v = nrows (heap st (buf v)))
      \<and> separate d)"

section \<open>Theorems\<close>

text \<open>The definitions that evaluate a run on the concrete inputs.\<close>

lemmas eval_defs =
  run_atom_synth_def load_extracted_audio_features_def get_recon_from_synth_output_def
  recon_sample_def recon_label_def env0_def label0_def hp0_def st0_def sample0_def
  expand_dims_1_def py_len_def atoms_to_lf0_def add_phrase_def silence_def math_log_def
  Let_def upt_rec extracted_world_dir_def stitch_def trim_full_sample_def trim_end_sample_def
  int_half_def slice_from_def slice_upto_def slice_bound_def set_column_def py_index_def
  vuv_mask_def column_def buffer_column_def returned_column_def st0_loaded_def
  full_output0_def st0_acoustic_def

subsection \<open>Trimming\<close>

lemma trim_reverse_nonneg:
  "0 \<le> l \<Longrightarrow>
   trim_end_sample a l True = a\<lparr>off := off a + min (len a) (nat l), len := len a - nat l\<rparr>"
  by (cases "l = 0") (auto simp: trim_end_sample_def slice_from_def slice_bound_def Let_def)

lemma trim_end_nonneg:
  "0 \<le> l \<Longrightarrow> trim_end_sample a l False = a\<lparr>len := len a - nat l\<rparr>"
  by (cases "l = 0") (auto simp: trim_end_sample_def slice_upto_def slice_bound_def Let_def)

lemma trim_full_sample_window:
  assumes "len_lf0 \<le> len full_sample"
  shows "trim_full_sample full_sample len_lf0 =
           full_sample\<lparr>off := off full_sample + (len full_sample - len_lf0) div 2,
                       len := len_lf0\<rparr>"
proof -
  define d where "d = int (len full_sample) - int len_lf0"
  have d0: "0 \<le> d" using assms by (simp add: d_def)
  have h: "int_half d = d div 2" using d0 by (simp add: int_half_def)
  have h0: "0 \<le> d div 2" "0 \<le> d - d div 2" using d0 by simp_all
  have n1: "nat (d div 2) = (len full_sample - len_lf0) div 2"
    using assms unfolding d_def by (simp add: nat_div_distrib nat_diff_distrib')
  show ?thesis
    unfolding trim_full_sample_def Let_def d_def[symmetric] h
    apply (simp add: trim_reverse_nonneg[OF h0(1)] trim_end_nonneg[OF h0(2)] n1)
    using assms d0 unfolding d_def
    apply auto
    done
qed

text \<open>
  C4. In \<open>run_atom_synth\<close>, when the full sample has at least as many frames as the
  reconstructed lf0 (\<open>len_diff \<ge> 0\<close>), trimming \<open>int(len_diff / 2)\<close> frames from the
  beginning and \<open>len_diff - int(len_diff / 2)\<close> frames from the end removes \<open>len_diff\<close>
  frames in all: the trimmed sample starts \<open>len_diff div 2\<close> frames later and has
  exactly as many frames as the lf0.
\<close>

theorem run_atom_synth_trim_removes_len_diff:
  assumes "len_lf0 \<le> len full_sample"
  shows "len (trim_full_sample full_sample len_lf0) = len_lf0
       \<and> off (trim_full_sample full_sample len_lf0)
           = off full_sample + (len full_sample - len_lf0) div 2
       \<and> len full_sample - len (trim_full_sample full_sample len_lf0)
           = len full_sample - len_lf0
       \<and> buf (trim_full_sample full_sample len_lf0) = buf full_sample"
  by (simp add: trim_full_sample_window[OF assms])

theorem run_atom_synth_trim_removes_len_diff_witness:
  "(4::nat) \<le> len \<lparr>buf = 0, off = 0, len = 7\<rparr>
   \<and> len (trim_full_sample \<lparr>buf = 0, off = 0, len = 7\<rparr> 4) = 4
   \<and> off (trim_full_sample \<lparr>buf = 0, off = 0, len = 7\<rparr> 4) = 1"
  using run_atom_synth_trim_removes_len_diff [of 4 "\<lparr>buf = 0, off = 0, len = 7\<rparr>"]
  by simp

text \<open>
  C5. In \<open>gen_figure_from_output\<close> the original lf0 is trimmed by \<open>int(len_diff / 2.0)\<close>
  frames at the end and \<open>int(len_diff / 2.0) + 1\<close> frames at the beginning. With an
  original lf0 of 4 frames and a predicted lf0 of 4 frames (\<open>len_diff = 0\<close>) the trimmed
  original has 3 frames, one fewer than the predicted signal.
\<close>

theorem gen_figure_trim_even_len_diff:
  "len (gen_figure_trim \<lparr>buf = 0, off = 0, len = 4\<rparr> 4) = 3
   \<and> len (gen_figure_trim \<lparr>buf = 0, off = 0, len = 6\<rparr> 4) = 3"
  by (simp add: gen_figure_trim_def trim_end_sample_def int_half_def slice_from_def
        slice_bound_def slice_upto_def Let_def)

text \<open>What the trimming of \<open>gen_figure_from_output\<close> does for an odd, positive \<open>len_diff\<close>.\<close>

lemma gen_figure_trim_odd_len_diff:
  assumes "len original_lf0 = len_lf0 + 2 * n + 1"
  shows "len (gen_figure_trim original_lf0 len_lf0) = len_lf0"
proof -
  have d: "int (len original_lf0) - int len_lf0 = 2 * int n + 1"
    using assms by simp
  have h: "int_half (2 * int n + 1) = int n"
    by (simp add: int_half_def)
  have p: "0 \<le> int n" "0 \<le> int n + 1" by simp_all
  show ?thesis
    unfolding gen_figure_trim_def Let_def d h
    using assms
    by (simp add: trim_end_nonneg[OF p(1)] trim_reverse_nonneg[OF p(2)])
qed

text \<open>And for an even one: the trimmed original is one frame short.\<close>

lemma gen_figure_trim_even_len_diff_short:
  assumes "len original_lf0 = len_lf0 + 2 * n"
  shows "len (gen_figure_trim original_lf0 len_lf0) = len_lf0 - 1"
proof -
  have d: "int (len original_lf0) - int len_lf0 = 2 * int n"
    using assms by simp
  have h: "int_half (2 * int n) = int n"
    by (simp add: int_half_def)
  have p: "0 \<le> int n" "0 \<le> int n + 1" by simp_all
  show ?thesis
    unfolding gen_figure_trim_def Let_def d h
    using assms
    by (simp add: trim_end_nonneg[OF p(1)] trim_reverse_nonneg[OF p(2)])
qed

subsection \<open>The reconstruction loop\<close>

lemma recon_loop_other:
  "recon_loop env hp items acc = Inr rd \<Longrightarrow> id_name \<notin> fst ` set items \<Longrightarrow>
   map_of rd id_name = map_of acc id_name"
proof (induction items arbitrary: acc)
  case Nil
  then show ?case by simp
next
  case (Cons p items)
  obtain i l where p: "p = (i, l)" by (cases p)
  from Cons.prems obtain r where r: "recon_sample env hp i l = Inr r"
    and rest: "recon_loop env hp items (AList.update i r acc) = Inr rd"
    by (auto simp: p split: sum.splits)
  have "map_of rd id_name = map_of (AList.update i r acc) id_name"
    using Cons.IH[OF rest] Cons.prems(2) by (simp add: p)
  then show ?case using Cons.prems(2) by (simp add: p update_conv')
qed

lemma recon_loop_entry:
  "recon_loop env hp items acc = Inr rd \<Longrightarrow> distinct (map fst items) \<Longrightarrow>
   (id_name, label) \<in> set items \<Longrightarrow>
   \<exists>r. recon_sample env hp id_name label = Inr r \<and> map_of rd id_name = Some r"
proof (induction items arbitrary: acc)
  case Nil
  then show ?case by simp
next
  case (Cons p items)
  obtain i l where p: "p = (i, l)" by (cases p)
  from Cons.prems(1) obtain r where r: "recon_sample env hp i l = Inr r"
    and rest: "recon_loop env hp items (AList.update i r acc) = Inr rd"
    by (auto simp: p split: sum.splits)
  show ?case
  proof (cases "(id_name, label) = (i, l)")
    case True
    have "i \<notin> fst ` set items" using Cons.prems(2) by (simp add: p)
    then have "map_of rd i = map_of (AList.update i r acc) i"
      using recon_loop_other[OF rest] by simp
    then show ?thesis using True r by (simp add: update_conv')
  next
    case False
    then have "(id_name, label) \<in> set items" using Cons.prems(3) by (auto simp: p)
    moreover have "distinct (map fst items)" using Cons.prems(2) by simp
    ultimately show ?thesis using Cons.IH[OF rest] by simp
  qed
qed

lemma recon_loop_returns:
  "(\<forall>(id_name, label) \<in> set items. \<exists>r. recon_sample env hp id_name label = Inr r) \<Longrightarrow>
   \<exists>rd. recon_loop env hp items acc = Inr rd"
proof (induction items arbitrary: acc)
  case Nil
  then show ?case by simp
next
  case (Cons p items)
  obtain i l where p: "p = (i, l)" by (cases p)
  from Cons.prems obtain r where r: "recon_sample env hp i l = Inr r" by (auto simp: p)
  have "\<forall>(id_name, label) \<in> set items. \<exists>r. recon_sample env hp id_name label = Inr r"
    using Cons.prems by simp
  from Cons.IH[OF this, of "AList.update i r acc"] show ?case by (simp add: p r)
qed

lemma recon_loop_keys:
  "recon_loop env hp items acc = Inr rd \<Longrightarrow> fst ` set rd = fst ` set acc \<union> fst ` set items"
proof (induction items arbitrary: acc)
  case Nil
  then show ?case by simp
next
  case (Cons p items)
  obtain i l where p: "p = (i, l)" by (cases p)
  from Cons.prems(1) obtain r where r: "recon_sample env hp i l = Inr r"
    and rest: "recon_loop env hp items (AList.update i r acc) = Inr rd"
    by (auto simp: p split: sum.splits)
  show ?case using Cons.IH[OF rest] by (auto simp: p dom_update)
qed

lemma length_add_phrase: "length (add_phrase r p) = length r"
  by (simp add: add_phrase_def)

lemma nth_add_phrase:
  "t < length r \<Longrightarrow>
   add_phrase r p ! t = (if t < length p then r ! t + p ! t else r ! t)"
  by (auto simp: add_phrase_def nth_append min_def)

lemma recon_sample_Inr:
  assumes "recon_sample env hp id_name label = Inr r"
  shows "\<exists>num_frames content.
           py_len (recon_label label) = Inr num_frames
         \<and> phrase_file env id_name = Some content
         \<and> 0 < f0_silence_threshold env
         \<and> r = silence (ln (f0_silence_threshold env)) (lf0_zero env)
                 (add_phrase
                    (atoms_to_lf0 env
                       (labels_to_atoms env (recon_label label) (k_atoms hp) (frame_size_ms hp)
                          (min_atom_amp hp)) num_frames)
                    (take num_frames content))"
  using assms
  by (auto simp: recon_sample_def Let_def math_log_def atoms_to_lf0_def
      split: sum.splits option.splits if_splits)

lemma recon_sample_returns:
  assumes "shape label \<noteq> []" "phrase_file env id_name \<noteq> None" "0 < f0_silence_threshold env"
  shows "\<exists>r. recon_sample env hp id_name label = Inr r"
  using assms
  by (auto simp: recon_sample_def recon_label_def Let_def math_log_def py_len_def expand_dims_1_def
      split: sum.splits option.splits list.splits)


text \<open>
  C2. In \<open>get_recon_from_synth_output\<close>, for every id of \<open>synth_output\<close>, the phrase
  curve read from the id's phrase file and cut to the length of the reconstruction is
  added, frame by frame, to the first \<open>len(phrase_curve)\<close> frames of the
  reconstruction; afterwards every frame whose value is at most
  \<open>log(f0_silence_threshold)\<close> is set to \<open>lf0_zero\<close>, and the other frames keep
  their value. The call returns when every label has a first dimension, every phrase
  file can be read and the threshold is positive.
\<close>

theorem get_recon_adds_phrase_then_silences:
  assumes "distinct (map fst synth_output)"
      and "\<forall>(id_name, label) \<in> set synth_output.
             shape label \<noteq> [] \<and> phrase_file env id_name \<noteq> None"
      and "0 < f0_silence_threshold env"
  shows "\<exists>recon_dict.
           get_recon_from_synth_output env synth_output hp = Inr recon_dict
         \<and> (\<forall>(id_name, label) \<in> set synth_output.
               \<exists>content num_frames reconstruction.
                 phrase_file env id_name = Some content
               \<and> py_len (recon_label label) = Inr num_frames
               \<and> map_of recon_dict id_name = Some reconstruction
               \<and> length reconstruction = num_frames
               \<and> (\<forall>t < num_frames.
                     reconstruction ! t =
                       (let raw = atoms_to_lf0 env
                                    (labels_to_atoms env (recon_label label) (k_atoms hp)
                                       (frame_size_ms hp) (min_atom_amp hp)) num_frames ! t;
                            phrase_curve = take num_frames content;
                            v = (if t < length phrase_curve then raw + phrase_curve ! t else raw)
                        in if v \<le> ln (f0_silence_threshold env) then lf0_zero env else v)))"
proof -
  have "\<forall>(id_name, label) \<in> set synth_output. \<exists>r. recon_sample env hp id_name label = Inr r"
    using assms(2,3) recon_sample_returns by fastforce
  from recon_loop_returns[OF this, of "[]"] obtain recon_dict
    where rd: "recon_loop env hp synth_output [] = Inr recon_dict" by blast
  have "\<exists>content num_frames reconstruction.
                 phrase_file env id_name = Some content
               \<and> py_len (recon_label label) = Inr num_frames
               \<and> map_of recon_dict id_name = Some reconstruction
               \<and> length reconstruction = num_frames
               \<and> (\<forall>t < num_frames.
                     reconstruction ! t =
                       (let raw = atoms_to_lf0 env
                                    (labels_to_atoms env (recon_label label) (k_atoms hp)
                                       (frame_size_ms hp) (min_atom_amp hp)) num_frames ! t;
                            phrase_curve = take num_frames content;
                            v = (if t < length phrase_curve then raw + phrase_curve ! t else raw)
                        in if v \<le> ln (f0_silence_threshold env) then lf0_zero env else v))"
    if mem: "(id_name, label) \<in> set synth_output" for id_name label
  proof -
    from recon_loop_entry[OF rd assms(1) mem] obtain r
      where r: "recon_sample env hp id_name label = Inr r" and m: "map_of recon_dict id_name = Some r"
      by blast
    from recon_sample_Inr[OF r] obtain num_frames content where
      n: "py_len (recon_label label) = Inr num_frames" and
      c: "phrase_file env id_name = Some content" and
      req: "r = silence (ln (f0_silence_threshold env)) (lf0_zero env)
                 (add_phrase
                    (atoms_to_lf0 env
                       (labels_to_atoms env (recon_label label) (k_atoms hp) (frame_size_ms hp)
                          (min_atom_amp hp)) num_frames)
                    (take num_frames content))"
      by blast
    have len: "length r = num_frames"
      by (simp add: req silence_def length_add_phrase atoms_to_lf0_def)
    have "r ! t =
                       (let raw = atoms_to_lf0 env
                                    (labels_to_atoms env (recon_label label) (k_atoms hp)
                                       (frame_size_ms hp) (min_atom_amp hp)) num_frames ! t;
                            phrase_curve = take num_frames content;
                            v = (if t < length phrase_curve then raw + phrase_curve ! t else raw)
                        in if v \<le> ln (f0_silence_threshold env) then lf0_zero env else v)"
      if "t < num_frames" for t
    proof -
      have l0: "length (atoms_to_lf0 env
                       (labels_to_atoms env (recon_label label) (k_atoms hp) (frame_size_ms hp)
                          (min_atom_amp hp)) num_frames) = num_frames"
        by (simp add: atoms_to_lf0_def)
      show ?thesis
        unfolding req silence_def Let_def
        using that l0 by (simp add: length_add_phrase nth_add_phrase)
    qed
    with n c m len show ?thesis by blast
  qed
  with rd show ?thesis
    unfolding get_recon_from_synth_output_def by blast
qed

theorem get_recon_adds_phrase_then_silences_witness:
  "distinct (map fst [(''utt1'', label0)]) \<and> shape label0 \<noteq> []
   \<and> phrase_file env0 ''utt1'' = Some [1, 2] \<and> 0 < f0_silence_threshold env0
   \<and> atoms_to_lf0 env0 (labels_to_atoms env0 (recon_label label0) 6 5 0.3) 3 = [2, - 5, 1 / 2]
   \<and> (\<exists>recon_dict.
         get_recon_from_synth_output env0 [(''utt1'', label0)] hp0 = Inr recon_dict
       \<and> map_of recon_dict ''utt1'' = Some [3, - 1, 1 / 2])"
  using get_recon_adds_phrase_then_silences [of "[(''utt1'', label0)]" env0 hp0]
  by (simp add: get_recon_from_synth_output_def recon_sample_def recon_label_def env0_def
      label0_def hp0_def expand_dims_1_def py_len_def atoms_to_lf0_def add_phrase_def
      silence_def math_log_def Let_def upt_rec)

lemma shape_expand_dims_1: "shape a = [T, D] \<Longrightarrow> shape (expand_dims_1 a) = [T, 1, D]"
  by (simp add: expand_dims_1_def)

lemma recon_label_rank2: "length (shape a) = 2 \<Longrightarrow> length (shape (recon_label a)) = 3"
  by (cases "shape a") (auto simp: recon_label_def expand_dims_1_def)

lemma recon_label_idem: "recon_label (recon_label a) = recon_label a"
proof (cases "length (shape a) = 2")
  case True
  from recon_label_rank2[OF this] show ?thesis by (simp add: recon_label_def)
next
  case False
  then show ?thesis by (simp add: recon_label_def)
qed

lemma py_len_recon_label: "py_len (recon_label a) = py_len a"
  by (cases "shape a") (auto simp: recon_label_def py_len_def expand_dims_1_def)

lemma recon_sample_recon_label:
  "recon_sample env hp id_name (recon_label label) = recon_sample env hp id_name label"
  using recon_label_idem[of label]
  by (simp add: recon_sample_def)

lemma recon_loop_recon_label:
  "recon_loop env hp (map (\<lambda>(id_name, label). (id_name, recon_label label)) items) acc
     = recon_loop env hp items acc"
proof (induction items arbitrary: acc)
  case Nil
  then show ?case by simp
next
  case (Cons p items)
  obtain i l where p: "p = (i, l)" by (cases p)
  show ?case by (simp add: p recon_sample_recon_label Cons.IH split: sum.splits)
qed


text \<open>
  C3. For every entry \<open>(id_name, label)\<close> of \<open>synth_output\<close> the result dictionary of
  \<open>get_recon_from_synth_output\<close> holds a dense lf0 for \<open>id_name\<close> of \<open>len(label)\<close>
  frames. A label of two dimensions \<open>T x D\<close> is first expanded to \<open>T x 1 x D\<close>, and
  the result is the one the expanded labels give.
\<close>

theorem get_recon_length_is_len_label:
  assumes "distinct (map fst synth_output)"
      and "\<forall>(id_name, label) \<in> set synth_output.
             shape label \<noteq> [] \<and> phrase_file env id_name \<noteq> None"
      and "0 < f0_silence_threshold env"
  shows "\<exists>recon_dict.
           get_recon_from_synth_output env synth_output hp = Inr recon_dict
         \<and> (\<forall>(id_name, label) \<in> set synth_output.
               \<exists>lf0. map_of recon_dict id_name = Some lf0 \<and> py_len label = Inr (length lf0))
         \<and> get_recon_from_synth_output env
              (map (\<lambda>(id_name, label).
                      (id_name, if length (shape label) = 2 then expand_dims_1 label else label))
                 synth_output) hp = Inr recon_dict
         \<and> (\<forall>(id_name, label) \<in> set synth_output. \<forall>T D.
               shape label = [T, D] \<longrightarrow> shape (expand_dims_1 label) = [T, 1, D])"
proof -
  have "\<forall>(id_name, label) \<in> set synth_output. \<exists>r. recon_sample env hp id_name label = Inr r"
    using assms(2,3) recon_sample_returns by fastforce
  from recon_loop_returns[OF this, of "[]"] obtain recon_dict
    where rd: "recon_loop env hp synth_output [] = Inr recon_dict" by blast
  have a: "\<exists>lf0. map_of recon_dict id_name = Some lf0 \<and> py_len label = Inr (length lf0)"
    if mem: "(id_name, label) \<in> set synth_output" for id_name label
  proof -
    from recon_loop_entry[OF rd assms(1) mem] obtain r
      where r: "recon_sample env hp id_name label = Inr r" and m: "map_of recon_dict id_name = Some r"
      by blast
    from recon_sample_Inr[OF r] obtain num_frames content where
      n: "py_len (recon_label label) = Inr num_frames" and
      req: "r = silence (ln (f0_silence_threshold env)) (lf0_zero env)
                 (add_phrase
                    (atoms_to_lf0 env
                       (labels_to_atoms env (recon_label label) (k_atoms hp) (frame_size_ms hp)
                          (min_atom_amp hp)) num_frames)
                    (take num_frames content))"
      by blast
    have len: "length r = num_frames"
      by (simp add: req silence_def length_add_phrase atoms_to_lf0_def)
    show ?thesis using m n len by (simp add: py_len_recon_label)
  qed
  have b: "recon_loop env hp
              (map (\<lambda>(id_name, label).
                      (id_name, if length (shape label) = 2 then expand_dims_1 label else label))
                 synth_output) [] = Inr recon_dict"
    using recon_loop_recon_label[of env hp synth_output "[]"] rd
    by (simp add: recon_label_def)
  have c: "\<forall>(id_name, label) \<in> set synth_output. \<forall>T D.
               shape label = [T, D] \<longrightarrow> shape (expand_dims_1 label) = [T, 1, D]"
    by (auto simp: shape_expand_dims_1)
  from rd a b c show ?thesis
    unfolding get_recon_from_synth_output_def by blast
qed

theorem get_recon_length_is_len_label_witness:
  "distinct (map fst [(''utt1'', label0)]) \<and> shape label0 \<noteq> []
   \<and> phrase_file env0 ''utt1'' \<noteq> None \<and> 0 < f0_silence_threshold env0
   \<and> get_recon_from_synth_output env0 [(''utt1'', label0)] hp0 = Inr [(''utt1'', [3, - 1, 1 / 2])]
   \<and> py_len label0 = Inr 3 \<and> shape (expand_dims_1 label0) = [3, 1, 2]"
  using get_recon_length_is_len_label [of "[(''utt1'', label0)]" env0 hp0]
  by (simp add: get_recon_from_synth_output_def recon_sample_def recon_label_def env0_def label0_def hp0_def
      expand_dims_1_def py_len_def atoms_to_lf0_def add_phrase_def silence_def math_log_def
      Let_def upt_rec)

subsection \<open>Writing through a window\<close>

lemma buf_trim_end_sample: "buf (trim_end_sample a l r) = buf a"
  by (simp add: trim_end_sample_def slice_from_def slice_upto_def Let_def)

lemma buf_trim_full_sample: "buf (trim_full_sample a n) = buf a"
  by (simp add: trim_full_sample_def Let_def buf_trim_end_sample)

lemma set_column_Inr:
  assumes "set_column a c vals st = Inr st'"
  shows "\<exists>j. py_index (ncols (heap st (buf a))) c = Some j
           \<and> (length vals = len a \<or> length vals = 1)
           \<and> st' = st\<lparr>heap := (heap st)(buf a := (heap st (buf a))\<lparr>cell :=
                   (\<lambda>t c'. if c' = j \<and> off a \<le> t \<and> t < off a + len a
                            then (if length vals = 1 then vals ! 0 else vals ! (t - off a))
                            else cell (heap st (buf a)) t c')\<rparr>)\<rparr>"
  using assms by (auto simp: set_column_def Let_def split: option.splits if_splits)

lemma set_column_frame:
  assumes "set_column a c vals st = Inr st'"
  shows "hpar st' = hpar st" "fresh st' = fresh st" "world st' = world st"
        "x \<noteq> buf a \<Longrightarrow> heap st' x = heap st x"
        "nrows (heap st' x) = nrows (heap st x)" "ncols (heap st' x) = ncols (heap st x)"
  using set_column_Inr[OF assms] by auto

lemma stitch_frame:
  assumes "stitch env (Some d) id_name lf0 st = Inr st'" "map_of d id_name = Some v"
  shows "hpar st' = hpar st" "fresh st' = fresh st" "world st' = world st"
        "x \<noteq> buf v \<Longrightarrow> heap st' x = heap st x"
        "nrows (heap st' x) = nrows (heap st x)" "ncols (heap st' x) = ncols (heap st x)"
proof -
  from assms obtain thr st1 where
    s1: "set_column (trim_full_sample v (length lf0)) (num_coded_sps (hpar st)) lf0 st = Inr st1" and
    s2: "set_column (trim_full_sample v (length lf0)) (num_coded_sps (hpar st1) + 1) (vuv_mask thr lf0) st1 = Inr st'"
    by (auto simp: stitch_def Let_def split: sum.splits)
  note f1 = set_column_frame[OF s1] and f2 = set_column_frame[OF s2]
  show "hpar st' = hpar st" using f1(1) f2(1) by simp
  show "fresh st' = fresh st" using f1(2) f2(2) by simp
  show "world st' = world st" using f1(3) f2(3) by simp
  show "x \<noteq> buf v \<Longrightarrow> heap st' x = heap st x"
    using f1(4)[of x] f2(4)[of x] by (simp add: buf_trim_full_sample)
  show "nrows (heap st' x) = nrows (heap st x)" using f1(5) f2(5) by simp
  show "ncols (heap st' x) = ncols (heap st x)" using f1(6) f2(6) by simp
qed

lemma py_index_nonneg: "0 \<le> c \<Longrightarrow> py_index n c = Some j \<Longrightarrow> j = nat c \<and> nat c < n"
  by (auto simp: py_index_def split: if_splits)

lemma set_column_cells:
  assumes "set_column a c vals st = Inr st'" "buf a = B" "off a = k" "len a = n"
  shows "\<exists>j. py_index (ncols (heap st B)) c = Some j
           \<and> (length vals = n \<or> length vals = 1)
           \<and> (\<forall>t c'. cell (heap st' B) t c' =
                 (if c' = j \<and> k \<le> t \<and> t < k + n
                  then (if length vals = 1 then vals ! 0 else vals ! (t - k))
                  else cell (heap st B) t c'))"
  using assms by (auto simp: set_column_def Let_def split: option.splits if_splits)

lemma stitch_window:
  assumes st: "stitch env (Some d) id_name lf0 st = Inr st'"
      and v: "map_of d id_name = Some v"
      and le: "length lf0 \<le> len v"
      and c0: "0 \<le> num_coded_sps (hpar st)"
  shows "0 < f0_silence_threshold env"
    and "nat (num_coded_sps (hpar st)) + 1 < ncols (heap st (buf v))"
    and "cell (heap st' (buf v)) t j =
          (let k = off v + (len v - length lf0) div 2 in
           if k \<le> t \<and> t < k + length lf0 \<and> j = nat (num_coded_sps (hpar st))
           then lf0 ! (t - k)
           else if k \<le> t \<and> t < k + length lf0 \<and> j = nat (num_coded_sps (hpar st)) + 1
           then vuv_mask (ln (f0_silence_threshold env)) lf0 ! (t - k)
           else cell (heap st (buf v)) t j)"
proof -
  define k where "k = off v + (len v - length lf0) div 2"
  define n where "n = length lf0"
  define c where "c = nat (num_coded_sps (hpar st))"
  from st v obtain thr st1 where
    thr: "math_log (f0_silence_threshold env) = Inr thr" and
    s1: "set_column (trim_full_sample v (length lf0)) (num_coded_sps (hpar st)) lf0 st = Inr st1" and
    s2: "set_column (trim_full_sample v (length lf0)) (num_coded_sps (hpar st1) + 1) (vuv_mask thr lf0) st1 = Inr st'"
    by (auto simp: stitch_def Let_def split: sum.splits)
  from thr show pos: "0 < f0_silence_threshold env"
    by (auto simp: math_log_def split: if_splits)
  from thr have thr_eq: "thr = ln (f0_silence_threshold env)"
    by (auto simp: math_log_def split: if_splits)
  have w: "trim_full_sample v (length lf0) = v\<lparr>off := k, len := n\<rparr>"
    unfolding k_def n_def by (rule trim_full_sample_window[OF le])
  have wb: "buf (trim_full_sample v (length lf0)) = buf v"
    and wo: "off (trim_full_sample v (length lf0)) = k"
    and wl: "len (trim_full_sample v (length lf0)) = n"
    by (simp_all add: w)
  have h1: "hpar st1 = hpar st" using set_column_frame(1)[OF s1] .
  have nc1: "ncols (heap st1 (buf v)) = ncols (heap st (buf v))"
    using set_column_frame(6)[OF s1] .
  from set_column_cells[OF s1 wb wo wl] obtain j1 where
    j1: "py_index (ncols (heap st (buf v))) (num_coded_sps (hpar st)) = Some j1" and
    e1: "\<And>t c'. cell (heap st1 (buf v)) t c' =
                 (if c' = j1 \<and> k \<le> t \<and> t < k + n
                  then (if length lf0 = 1 then lf0 ! 0 else lf0 ! (t - k))
                  else cell (heap st (buf v)) t c')"
    by blast
  from set_column_cells[OF s2 wb wo wl] obtain j2 where
    j2: "py_index (ncols (heap st1 (buf v))) (num_coded_sps (hpar st1) + 1) = Some j2" and
    e2: "\<And>t c'. cell (heap st' (buf v)) t c' =
                 (if c' = j2 \<and> k \<le> t \<and> t < k + n
                  then (if length (vuv_mask thr lf0) = 1 then vuv_mask thr lf0 ! 0
                        else vuv_mask thr lf0 ! (t - k))
                  else cell (heap st1 (buf v)) t c')"
    by blast
  have J1: "j1 = c"
    using py_index_nonneg[OF c0 j1] by (simp add: c_def)
  have J2: "j2 = c + 1" "c + 1 < ncols (heap st (buf v))"
    using py_index_nonneg[OF _ j2[unfolded h1 nc1]] c0 by (simp_all add: nat_add_distrib c_def)
  show "nat (num_coded_sps (hpar st)) + 1 < ncols (heap st (buf v))"
    using J2(2) by (simp add: c_def)
  have one: "t - k = 0" if "n = 1" "k \<le> t" "t < k + n"
    using that by simp
  have lv: "length (vuv_mask thr lf0) = n" by (simp add: vuv_mask_def n_def)
  have "cell (heap st' (buf v)) t j =
          (if k \<le> t \<and> t < k + n \<and> j = c
           then lf0 ! (t - k)
           else if k \<le> t \<and> t < k + n \<and> j = c + 1
           then vuv_mask thr lf0 ! (t - k)
           else cell (heap st (buf v)) t j)"
    unfolding e2 e1 J1 J2(1) lv
    using one by (auto simp: n_def)
  then show "cell (heap st' (buf v)) t j =
          (let k = off v + (len v - length lf0) div 2 in
           if k \<le> t \<and> t < k + length lf0 \<and> j = nat (num_coded_sps (hpar st))
           then lf0 ! (t - k)
           else if k \<le> t \<and> t < k + length lf0 \<and> j = nat (num_coded_sps (hpar st)) + 1
           then vuv_mask (ln (f0_silence_threshold env)) lf0 ! (t - k)
           else cell (heap st (buf v)) t j)"
    unfolding Let_def k_def n_def c_def thr_eq .
qed

lemma stitch_Inr_lookup:
  "stitch env (Some d) id_name lf0 st = Inr st' \<Longrightarrow> \<exists>v. map_of d id_name = Some v"
  by (auto simp: stitch_def split: option.splits)

lemma stitch_loop_frame:
  "stitch_loop env (Some d) items st = Inr st' \<Longrightarrow>
   hpar st' = hpar st \<and> fresh st' = fresh st \<and> world st' = world st
   \<and> nrows (heap st' x) = nrows (heap st x) \<and> ncols (heap st' x) = ncols (heap st x)"
proof (induction items arbitrary: st)
  case Nil
  then show ?case by simp
next
  case (Cons p items)
  obtain i l where p: "p = (i, l)" by (cases p)
  from Cons.prems obtain st1 where s: "stitch env (Some d) i l st = Inr st1"
    and rest: "stitch_loop env (Some d) items st1 = Inr st'"
    by (auto simp: p split: sum.splits)
  from stitch_Inr_lookup[OF s] obtain w where w: "map_of d i = Some w" by blast
  note f = stitch_frame[OF s w]
  show ?case using Cons.IH[OF rest] f(1,2,3,5,6) by simp
qed

lemma stitch_loop_other:
  "stitch_loop env (Some d) items st = Inr st' \<Longrightarrow> separate d \<Longrightarrow>
   map_of d id_name = Some v \<Longrightarrow> id_name \<notin> fst ` set items \<Longrightarrow>
   heap st' (buf v) = heap st (buf v)"
proof (induction items arbitrary: st)
  case Nil
  then show ?case by simp
next
  case (Cons p items)
  obtain i l where p: "p = (i, l)" by (cases p)
  from Cons.prems(1) obtain st1 where s: "stitch env (Some d) i l st = Inr st1"
    and rest: "stitch_loop env (Some d) items st1 = Inr st'"
    by (auto simp: p split: sum.splits)
  from stitch_Inr_lookup[OF s] obtain w where w: "map_of d i = Some w" by blast
  have ne: "i \<noteq> id_name" using Cons.prems(4) by (auto simp: p)
  then have "buf v \<noteq> buf w"
    using Cons.prems(2,3) w unfolding separate_def by blast
  then have "heap st1 (buf v) = heap st (buf v)"
    using stitch_frame(4)[OF s w] by simp
  moreover have "heap st' (buf v) = heap st1 (buf v)"
    using Cons.IH[OF rest Cons.prems(2,3)] Cons.prems(4) by (simp add: p)
  ultimately show ?case by simp
qed

lemma stitch_loop_entry:
  "stitch_loop env (Some d) items st = Inr st' \<Longrightarrow> separate d \<Longrightarrow>
   distinct (map fst items) \<Longrightarrow> map_of d id_name = Some v \<Longrightarrow>
   (id_name, lf0) \<in> set items \<Longrightarrow> length lf0 \<le> len v \<Longrightarrow>
   0 \<le> num_coded_sps (hpar st) \<Longrightarrow>
   0 < f0_silence_threshold env
   \<and> nat (num_coded_sps (hpar st)) + 1 < ncols (heap st (buf v))
   \<and> (\<forall>t j. cell (heap st' (buf v)) t j =
          (let k = off v + (len v - length lf0) div 2 in
           if k \<le> t \<and> t < k + length lf0 \<and> j = nat (num_coded_sps (hpar st))
           then lf0 ! (t - k)
           else if k \<le> t \<and> t < k + length lf0 \<and> j = nat (num_coded_sps (hpar st)) + 1
           then vuv_mask (ln (f0_silence_threshold env)) lf0 ! (t - k)
           else cell (heap st (buf v)) t j))"
proof (induction items arbitrary: st)
  case Nil
  then show ?case by simp
next
  case (Cons p items)
  obtain i l where p: "p = (i, l)" by (cases p)
  from Cons.prems(1) obtain st1 where s: "stitch env (Some d) i l st = Inr st1"
    and rest: "stitch_loop env (Some d) items st1 = Inr st'"
    by (auto simp: p split: sum.splits)
  from stitch_Inr_lookup[OF s] obtain w where w: "map_of d i = Some w" by blast
  show ?case
  proof (cases "i = id_name")
    case True
    have notin: "id_name \<notin> fst ` set items" using Cons.prems(3) True by (simp add: p)
    then have l: "l = lf0" using Cons.prems(5) True by (auto simp: p rev_image_eqI)
    have same: "heap st' (buf v) = heap st1 (buf v)"
      by (rule stitch_loop_other[OF rest Cons.prems(2,4) notin])
    from stitch_window[OF s[unfolded True l] Cons.prems(4,6,7)] same
    show ?thesis by simp
  next
    case False
    then have "buf v \<noteq> buf w"
      using Cons.prems(2,4) w unfolding separate_def by blast
    then have h: "heap st1 (buf v) = heap st (buf v)"
      using stitch_frame(4)[OF s w] by simp
    have hp: "hpar st1 = hpar st" using stitch_frame(1)[OF s w] .
    have mem: "(id_name, lf0) \<in> set items" using Cons.prems(5) False by (auto simp: p)
    have dist: "distinct (map fst items)" using Cons.prems(3) by simp
    have c1: "0 \<le> num_coded_sps (hpar st1)" using Cons.prems(7) hp by simp
    from Cons.IH[OF rest Cons.prems(2) dist Cons.prems(4) mem Cons.prems(6) c1]
    show ?thesis unfolding h hp .
  qed
qed

lemma load_loop_Inr:
  "load_loop env ids org st = Inr (d, st1) \<Longrightarrow> wf_dict org st \<Longrightarrow>
   wf_dict d st1 \<and> hpar st1 = hpar st \<and> world st1 = world st \<and> fresh st \<le> fresh st1
   \<and> (\<forall>a < fresh st. heap st1 a = heap st a)
   \<and> (\<forall>i. i \<notin> set ids \<longrightarrow> map_of d i = map_of org i)
   \<and> (\<forall>i \<in> set ids. \<exists>v. map_of d i = Some v
         \<and> world_load_sample env i (extracted_world_dir env (hpar st)) (num_coded_sps (hpar st))
             = Inr (heap st1 (buf v)))"
proof (induction ids arbitrary: org st)
  case Nil
  then show ?case by simp
next
  case (Cons i ids)
  let ?dir = "extracted_world_dir env (hpar st)"
  let ?n = "num_coded_sps (hpar st)"
  from Cons.prems(1) obtain b where b: "world_load_sample env i ?dir ?n = Inr b"
    and rest: "load_loop env ids
            (AList.update i \<lparr>buf = fresh st, off = 0, len = nrows b\<rparr> org)
            (st\<lparr>heap := (heap st)(fresh st := b), fresh := Suc (fresh st)\<rparr>) = Inr (d, st1)"
    by (auto split: sum.splits)
  let ?v0 = "\<lparr>buf = fresh st, off = 0, len = nrows b\<rparr>"
  let ?org = "AList.update i ?v0 org"
  let ?st = "st\<lparr>heap := (heap st)(fresh st := b), fresh := Suc (fresh st)\<rparr>"
  have old: "buf v < fresh st \<and> off v = 0 \<and> len v = nrows (heap st (buf v))"
    if "map_of org k = Some v" for k v
    using Cons.prems(2) that unfolding wf_dict_def by blast
  have sep: "separate org" using Cons.prems(2) unfolding wf_dict_def by blast
  have wf1: "buf v < fresh ?st \<and> off v = 0 \<and> len v = nrows (heap ?st (buf v))"
    if "map_of ?org k = Some v" for k v
  proof (cases "k = i")
    case True
    then have "v = ?v0" using that by (simp add: update_conv')
    then show ?thesis by simp
  next
    case False
    then have "map_of org k = Some v" using that by (simp add: update_conv')
    from old[OF this] show ?thesis by simp
  qed
  have wf2: "buf v \<noteq> buf w"
    if m1: "map_of ?org k = Some v" and m2: "map_of ?org j = Some w" and ne: "k \<noteq> j"
    for k j v w
  proof -
    consider "k = i" "j \<noteq> i" | "k \<noteq> i" "j = i" | "k \<noteq> i" "j \<noteq> i"
      using ne by blast
    then show ?thesis
    proof cases
      case 1
      then have "v = ?v0" "map_of org j = Some w" using m1 m2 by (simp_all add: update_conv')
      with old[of j w] show ?thesis by simp
    next
      case 2
      then have "w = ?v0" "map_of org k = Some v" using m1 m2 by (simp_all add: update_conv')
      with old[of k v] show ?thesis by simp
    next
      case 3
      then have "map_of org k = Some v" "map_of org j = Some w"
        using m1 m2 by (simp_all add: update_conv')
      with sep ne show ?thesis unfolding separate_def by blast
    qed
  qed
  have wf: "wf_dict ?org ?st"
    unfolding wf_dict_def separate_def using wf1 wf2 by blast
  note ih = Cons.IH[OF rest wf]
  have hp: "hpar ?st = hpar st" by simp
  have 1: "wf_dict d st1" using ih by simp
  have 2: "hpar st1 = hpar st" "world st1 = world st" "fresh st \<le> fresh st1" using ih by simp_all
  have 3: "\<forall>a < fresh st. heap st1 a = heap st a" using ih by simp
  have 4: "\<forall>k. k \<notin> set (i # ids) \<longrightarrow> map_of d k = map_of org k"
    using ih by (simp add: update_conv')
  have 5: "\<exists>v. map_of d k = Some v \<and> world_load_sample env k ?dir ?n = Inr (heap st1 (buf v))"
    if k: "k \<in> set (i # ids)" for k
  proof (cases "k \<in> set ids")
    case True
    then show ?thesis using ih by simp
  next
    case False
    then have ki: "k = i" using k by simp
    have "map_of d i = map_of ?org i" using ih False ki by simp
    then have m: "map_of d i = Some ?v0" by (simp add: update_conv')
    have "heap st1 (fresh st) = heap ?st (fresh st)" using ih by simp
    then have "heap st1 (fresh st) = b" by simp
    with m b show ?thesis by (simp add: ki)
  qed
  from 1 2 3 4 5 show ?case by blast
qed

lemma recon_loop_distinct:
  "recon_loop env hp items acc = Inr rd \<Longrightarrow> distinct (map fst acc) \<Longrightarrow> distinct (map fst rd)"
proof (induction items arbitrary: acc)
  case Nil
  then show ?case by simp
next
  case (Cons p items)
  obtain i l where p: "p = (i, l)" by (cases p)
  from Cons.prems(1) obtain r where r: "recon_sample env hp i l = Inr r"
    and rest: "recon_loop env hp items (AList.update i r acc) = Inr rd"
    by (auto simp: p split: sum.splits)
  show ?case using Cons.IH[OF rest] Cons.prems(2) by (simp add: distinct_update)
qed

lemma stitched_column:
  assumes le: "n \<le> N" and lx: "length xs = n"
    and cells: "\<And>t. t < N \<Longrightarrow> f t = (if k \<le> t \<and> t < k + n then xs ! (t - k) else g t)"
    and k: "k = (N - n) div 2"
  shows "map f [0..<N] = take k (map g [0..<N]) @ xs @ drop (k + n) (map g [0..<N])"
proof (rule nth_equalityI)
  have kn: "k + n \<le> N" using le k by simp
  then show "length (map f [0..<N]) = length (take k (map g [0..<N]) @ xs @ drop (k + n) (map g [0..<N]))"
    using lx by simp
  fix t assume "t < length (map f [0..<N])"
  then have t: "t < N" by simp
  show "map f [0..<N] ! t = (take k (map g [0..<N]) @ xs @ drop (k + n) (map g [0..<N])) ! t"
    using t kn lx cells[OF t] by (auto simp: nth_append min_def)
qed

subsection \<open>Returning\<close>

lemma py_index_in_range: "0 \<le> c \<Longrightarrow> nat c < n \<Longrightarrow> py_index n c = Some (nat c)"
  by (simp add: py_index_def)

lemma set_column_returns:
  assumes "0 \<le> c" "nat c < ncols (heap st (buf a))" "length vals = len a"
  shows "\<exists>st'. set_column a c vals st = Inr st'"
  using assms by (simp add: set_column_def Let_def py_index_in_range)

lemma stitch_returns:
  assumes v: "map_of d id_name = Some v"
      and le: "length lf0 \<le> len v"
      and c0: "0 \<le> num_coded_sps (hpar st)"
      and c1: "nat (num_coded_sps (hpar st)) + 1 < ncols (heap st (buf v))"
      and thr: "0 < f0_silence_threshold env"
  shows "\<exists>st'. stitch env (Some d) id_name lf0 st = Inr st'"
proof -
  let ?w = "trim_full_sample v (length lf0)"
  have w: "?w = v\<lparr>off := off v + (len v - length lf0) div 2, len := length lf0\<rparr>"
    by (rule trim_full_sample_window[OF le])
  have wb: "buf ?w = buf v" and wl: "len ?w = length lf0" by (simp_all add: w)
  have "nat (num_coded_sps (hpar st)) < ncols (heap st (buf ?w))" using c1 wb by simp
  from set_column_returns[OF c0 this wl[symmetric]] obtain st1 where
    s1: "set_column ?w (num_coded_sps (hpar st)) lf0 st = Inr st1" by blast
  note f = set_column_frame[OF s1]
  have c0': "0 \<le> num_coded_sps (hpar st1) + 1" using c0 f(1) by simp
  have "nat (num_coded_sps (hpar st1) + 1) < ncols (heap st1 (buf ?w))"
    using c1 c0 f(1) f(6)[of "buf v"] wb by (simp add: nat_add_distrib)
  moreover have "length (vuv_mask (ln (f0_silence_threshold env)) lf0) = len ?w"
    by (simp add: vuv_mask_def wl)
  ultimately obtain st2 where
    "set_column ?w (num_coded_sps (hpar st1) + 1)
       (vuv_mask (ln (f0_silence_threshold env)) lf0) st1 = Inr st2"
    using set_column_returns[OF c0'] by blast
  with s1 v thr show ?thesis
    by (simp add: stitch_def math_log_def Let_def)
qed

lemma stitch_loop_returns:
  assumes "\<forall>(id_name, lf0) \<in> set items.
             \<exists>v. map_of d id_name = Some v \<and> length lf0 \<le> len v
                \<and> nat (num_coded_sps (hpar st)) + 1 < ncols (heap st (buf v))"
      and "0 \<le> num_coded_sps (hpar st)"
      and "0 < f0_silence_threshold env"
  shows "\<exists>st'. stitch_loop env (Some d) items st = Inr st'"
  using assms
proof (induction items arbitrary: st)
  case Nil
  then show ?case by simp
next
  case (Cons p items)
  obtain i l where p: "p = (i, l)" by (cases p)
  from Cons.prems(1) obtain v where v: "map_of d i = Some v" and le: "length l \<le> len v"
    and c1: "nat (num_coded_sps (hpar st)) + 1 < ncols (heap st (buf v))"
    by (auto simp: p)
  from stitch_returns[OF v le Cons.prems(2) c1 Cons.prems(3)] obtain st1 where
    s: "stitch env (Some d) i l st = Inr st1" by blast
  note f = stitch_frame[OF s v]
  have "\<forall>(id_name, lf0) \<in> set items.
             \<exists>v. map_of d id_name = Some v \<and> length lf0 \<le> len v
                \<and> nat (num_coded_sps (hpar st1)) + 1 < ncols (heap st1 (buf v))"
    using Cons.prems(1) f(1) f(6) by (auto simp: p)
  moreover have "0 \<le> num_coded_sps (hpar st1)" using Cons.prems(2) f(1) by simp
  ultimately obtain st' where "stitch_loop env (Some d) items st1 = Inr st'"
    using Cons.IH Cons.prems(3) by blast
  with s show ?case by (simp add: p)
qed

lemma load_loop_returns:
  assumes "\<forall>i \<in> set ids. \<exists>b. world_load_sample env i (extracted_world_dir env (hpar st))
                              (num_coded_sps (hpar st)) = Inr b"
  shows "\<exists>d st1. load_loop env ids org st = Inr (d, st1)"
  using assms
proof (induction ids arbitrary: org st)
  case Nil
  then show ?case by simp
next
  case (Cons i ids)
  from Cons.prems obtain b where
    b: "world_load_sample env i (extracted_world_dir env (hpar st)) (num_coded_sps (hpar st)) = Inr b"
    by auto
  let ?st = "st\<lparr>heap := (heap st)(fresh st := b), fresh := Suc (fresh st)\<rparr>"
  have "\<forall>i \<in> set ids. \<exists>b. world_load_sample env i (extracted_world_dir env (hpar ?st))
                              (num_coded_sps (hpar ?st)) = Inr b"
    using Cons.prems by simp
  from Cons.IH[OF this] show ?case by (simp add: b)
qed


text \<open>
  \<open>run_atom_synth\<close> returns when the features are loaded from the extracted files,
  every phrase file and every feature file can be read, no loaded sample is shorter than
  its label, and the columns \<open>num_coded_sps\<close> and \<open>num_coded_sps + 1\<close> exist.
\<close>

lemma run_atom_synth_returns:
  assumes path: "synth_acoustic_model_path (hpar st) = None"
      and dist: "distinct (map fst synth_output)"
      and labels: "\<forall>(id_name, label) \<in> set synth_output.
             phrase_file env id_name \<noteq> None
           \<and> (\<exists>n b. py_len label = Inr n
                 \<and> world_load_sample env id_name (extracted_world_dir env (hpar st))
                      (num_coded_sps (hpar st)) = Inr b
                 \<and> n \<le> nrows b
                 \<and> nat (num_coded_sps (hpar st)) + 1 < ncols b)"
      and c0: "0 \<le> num_coded_sps (hpar st)"
      and thr: "0 < f0_silence_threshold env"
  shows "\<exists>d st'. run_atom_synth env file_id_list synth_output st = Inr (Some d, st')"
proof -
  have "\<forall>i \<in> set (map fst synth_output).
          \<exists>b. world_load_sample env i (extracted_world_dir env (hpar st))
                 (num_coded_sps (hpar st)) = Inr b"
    using labels by fastforce
  from load_loop_returns[OF this, of "[]"] obtain d st1 where
    load: "load_loop env (map fst synth_output) [] st = Inr (d, st1)" by blast
  have wf0: "wf_dict [] st" by (simp add: wf_dict_def separate_def)
  note L = load_loop_Inr[OF load wf0]
  have hp1: "hpar st1 = hpar st" using L by simp
  have sh: "\<forall>(id_name, label) \<in> set synth_output.
             shape label \<noteq> [] \<and> phrase_file env id_name \<noteq> None"
    using labels by (fastforce simp: py_len_def)
  have "\<forall>(id_name, label) \<in> set synth_output. \<exists>r. recon_sample env (hpar st) id_name label = Inr r"
    using sh thr recon_sample_returns by fastforce
  from recon_loop_returns[OF this, of "[]"] obtain recon_dict where
    rl: "recon_loop env (hpar st) synth_output [] = Inr recon_dict" by blast
  have items: "\<exists>v. map_of d id_name = Some v \<and> length lf0 \<le> len v
                \<and> nat (num_coded_sps (hpar st1)) + 1 < ncols (heap st1 (buf v))"
    if mem: "(id_name, lf0) \<in> set recon_dict" for id_name lf0
  proof -
    have "id_name \<in> fst ` set recon_dict" using mem by (simp add: rev_image_eqI)
    then have "id_name \<in> fst ` set synth_output" using recon_loop_keys[OF rl] by simp
    then obtain label where lab: "(id_name, label) \<in> set synth_output" by auto
    from recon_loop_entry[OF rl dist lab] obtain r where
      r: "recon_sample env (hpar st) id_name label = Inr r" and
      m: "map_of recon_dict id_name = Some r" by blast
    have "distinct (map fst recon_dict)" using recon_loop_distinct[OF rl] by simp
    then have "map_of recon_dict id_name = Some lf0" using mem by simp
    with m have rl0: "r = lf0" by simp
    from recon_sample_Inr[OF r] obtain num_frames content where
      n: "py_len (recon_label label) = Inr num_frames" and
      req: "r = silence (ln (f0_silence_threshold env)) (lf0_zero env)
                 (add_phrase
                    (atoms_to_lf0 env
                       (labels_to_atoms env (recon_label label) (k_atoms (hpar st))
                          (frame_size_ms (hpar st)) (min_atom_amp (hpar st))) num_frames)
                    (take num_frames content))"
      by blast
    have "length r = num_frames"
      by (simp add: req silence_def length_add_phrase atoms_to_lf0_def)
    then have len: "length lf0 = num_frames" using rl0 by simp
    from labels lab obtain n' b where
      n': "py_len label = Inr n'" and
      b: "world_load_sample env id_name (extracted_world_dir env (hpar st))
                      (num_coded_sps (hpar st)) = Inr b" and
      le: "n' \<le> nrows b" and nc: "nat (num_coded_sps (hpar st)) + 1 < ncols b"
      by fastforce
    have nn: "n' = num_frames" using n n' by (simp add: py_len_recon_label)
    have "id_name \<in> set (map fst synth_output)" using lab by (simp add: rev_image_eqI)
    with L obtain v where v: "map_of d id_name = Some v"
      and lv: "world_load_sample env id_name (extracted_world_dir env (hpar st))
                (num_coded_sps (hpar st)) = Inr (heap st1 (buf v))"
      by blast
    have hb: "heap st1 (buf v) = b" using lv b by simp
    have "wf_dict d st1" using L by simp
    then have nv: "len v = nrows b" using v hb unfolding wf_dict_def by auto
    show ?thesis using v le nc nn len nv hb hp1 by simp
  qed
  have c1: "0 \<le> num_coded_sps (hpar st1)" using c0 hp1 by simp
  have "\<forall>(id_name, lf0) \<in> set recon_dict.
             \<exists>v. map_of d id_name = Some v \<and> length lf0 \<le> len v
                \<and> nat (num_coded_sps (hpar st1)) + 1 < ncols (heap st1 (buf v))"
    using items by blast
  from stitch_loop_returns[OF this c1 thr] obtain st' where
    loop: "stitch_loop env (Some d) recon_dict st1 = Inr st'" by blast
  show ?thesis
    using path load rl loop
    by (simp add: run_atom_synth_def load_extracted_audio_features_def
        get_recon_from_synth_output_def hp1)
qed

subsection \<open>The returned matrix\<close>

lemma stitch_loop_None:
  "stitch_loop env None items st = Inr st' \<Longrightarrow> items = []"
  by (cases items) (auto simp: stitch_def split: sum.splits)

lemma run_atom_synth_stitched_is_loaded:
  assumes run: "run_atom_synth env file_id_list synth_output st = Inr (full_output, st')"
      and rec: "get_recon_from_synth_output env synth_output (hpar st) = Inr recon_dict"
      and lf0: "map_of recon_dict id_name = Some lf0"
  shows "synth_acoustic_model_path (hpar st) = None"
proof (rule ccontr)
  assume n: "synth_acoustic_model_path (hpar st) \<noteq> None"
  with run obtain w rd where
    rd: "get_recon_from_synth_output env synth_output (hpar (st\<lparr>world := w\<rparr>)) = Inr rd" and
    loop: "stitch_loop env None rd (st\<lparr>world := w\<rparr>) = Inr st'"
    by (auto simp: run_atom_synth_def generate_audio_features_def split: sum.splits option.splits)
  from rd rec have "rd = recon_dict" by simp
  with stitch_loop_None[OF loop] lf0 show False by simp
qed

lemma run_atom_synth_cells:
  assumes run: "run_atom_synth env file_id_list synth_output st = Inr (full_output, st')"
      and rec: "get_recon_from_synth_output env synth_output (hpar st) = Inr recon_dict"
      and lf0: "map_of recon_dict id_name = Some lf0"
      and b: "world_load_sample env id_name (extracted_world_dir env (hpar st))
                (num_coded_sps (hpar st)) = Inr b"
      and le: "length lf0 \<le> nrows b"
      and c0: "0 \<le> num_coded_sps (hpar st)"
  shows "\<exists>d v. full_output = Some d \<and> map_of d id_name = Some v
         \<and> off v = 0 \<and> len v = nrows b
         \<and> nat (num_coded_sps (hpar st)) + 1 < ncols b
         \<and> (\<forall>t j. cell (heap st' (buf v)) t j =
               (let k = (nrows b - length lf0) div 2 in
                if k \<le> t \<and> t < k + length lf0 \<and> j = nat (num_coded_sps (hpar st))
                then lf0 ! (t - k)
                else if k \<le> t \<and> t < k + length lf0 \<and> j = nat (num_coded_sps (hpar st)) + 1
                then vuv_mask (ln (f0_silence_threshold env)) lf0 ! (t - k)
                else cell b t j))"
proof -
  have path: "synth_acoustic_model_path (hpar st) = None"
    by (rule run_atom_synth_stitched_is_loaded[OF run rec lf0])
  from run path obtain d st1 where
    load: "load_loop env (map fst synth_output) [] st = Inr (d, st1)" and
    fo: "full_output = Some d"
    by (auto simp: run_atom_synth_def load_extracted_audio_features_def split: sum.splits)
  have wf0: "wf_dict [] st" by (simp add: wf_dict_def separate_def)
  note L = load_loop_Inr[OF load wf0]
  have hp1: "hpar st1 = hpar st" using L by simp
  from run path load rec have loop: "stitch_loop env (Some d) recon_dict st1 = Inr st'"
    by (auto simp: run_atom_synth_def load_extracted_audio_features_def hp1 split: sum.splits)
  have rl: "recon_loop env (hpar st) synth_output [] = Inr recon_dict"
    using rec by (simp add: get_recon_from_synth_output_def)
  have dist: "distinct (map fst recon_dict)"
    using recon_loop_distinct[OF rl] by simp
  have mem: "(id_name, lf0) \<in> set recon_dict" using lf0 by (rule map_of_SomeD)
  have "id_name \<in> fst ` set recon_dict" using mem by (simp add: rev_image_eqI)
  then have key: "id_name \<in> set (map fst synth_output)"
    using recon_loop_keys[OF rl] by simp
  with L obtain v where v: "map_of d id_name = Some v"
    and lv: "world_load_sample env id_name (extracted_world_dir env (hpar st))
                (num_coded_sps (hpar st)) = Inr (heap st1 (buf v))"
    by blast
  have hb: "heap st1 (buf v) = b" using lv b by simp
  have wfd: "wf_dict d st1" using L by simp
  then have sep: "separate d" and ov: "off v = 0" and nv: "len v = nrows b"
    using v hb unfolding wf_dict_def by auto
  have le': "length lf0 \<le> len v" using le nv by simp
  have c1: "0 \<le> num_coded_sps (hpar st1)" using c0 hp1 by simp
  note E = stitch_loop_entry[OF loop sep dist v mem le' c1, unfolded hp1 hb ov nv]
  from E have "nat (num_coded_sps (hpar st)) + 1 < ncols b" by simp
  moreover from E have "\<forall>t j. cell (heap st' (buf v)) t j =
               (let k = (nrows b - length lf0) div 2 in
                if k \<le> t \<and> t < k + length lf0 \<and> j = nat (num_coded_sps (hpar st))
                then lf0 ! (t - k)
                else if k \<le> t \<and> t < k + length lf0 \<and> j = nat (num_coded_sps (hpar st)) + 1
                then vuv_mask (ln (f0_silence_threshold env)) lf0 ! (t - k)
                else cell b t j)"
    by simp
  ultimately show ?thesis using fo v ov nv by blast
qed

text \<open>
  C1 (as amended). When the loaded sample of an id has at least as many frames as the
  id's reconstructed lf0 and \<open>num_coded_sps\<close> is not negative, the matrix
  that \<open>run_atom_synth\<close> returns for the id keeps all the frames of the loaded sample;
  its column \<open>num_coded_sps\<close> is the loaded column with the lf0 written over the
  \<open>len(lf0)\<close> frames that start at frame \<open>len_diff div 2\<close>, and its column
  \<open>num_coded_sps + 1\<close> is the loaded column with the voiced/unvoiced mask written over
  the same frames.
\<close>

theorem run_atom_synth_stitches_window:
  assumes run: "run_atom_synth env file_id_list synth_output st = Inr (full_output, st')"
      and rec: "get_recon_from_synth_output env synth_output (hpar st) = Inr recon_dict"
      and lf0: "map_of recon_dict id_name = Some lf0"
      and b: "world_load_sample env id_name (extracted_world_dir env (hpar st))
                (num_coded_sps (hpar st)) = Inr b"
      and le: "length lf0 \<le> nrows b"
      and c0: "0 \<le> num_coded_sps (hpar st)"
  shows "\<exists>d full_sample.
           full_output = Some d \<and> map_of d id_name = Some full_sample
         \<and> len full_sample = nrows b
         \<and> column st' full_sample (nat (num_coded_sps (hpar st)))
             = take ((nrows b - length lf0) div 2) (buffer_column b (nat (num_coded_sps (hpar st))))
               @ lf0
               @ drop ((nrows b - length lf0) div 2 + length lf0)
                   (buffer_column b (nat (num_coded_sps (hpar st))))
         \<and> column st' full_sample (nat (num_coded_sps (hpar st)) + 1)
             = take ((nrows b - length lf0) div 2)
                 (buffer_column b (nat (num_coded_sps (hpar st)) + 1))
               @ vuv_mask (ln (f0_silence_threshold env)) lf0
               @ drop ((nrows b - length lf0) div 2 + length lf0)
                   (buffer_column b (nat (num_coded_sps (hpar st)) + 1))"
proof -
  let ?c = "nat (num_coded_sps (hpar st))"
  let ?k = "(nrows b - length lf0) div 2"
  from run_atom_synth_cells[OF run rec lf0 b le c0] obtain d v where
    fo: "full_output = Some d" and v: "map_of d id_name = Some v" and
    ov: "off v = 0" and nv: "len v = nrows b" and
    E: "\<forall>t j. cell (heap st' (buf v)) t j =
               (let k = ?k in
                if k \<le> t \<and> t < k + length lf0 \<and> j = ?c
                then lf0 ! (t - k)
                else if k \<le> t \<and> t < k + length lf0 \<and> j = ?c + 1
                then vuv_mask (ln (f0_silence_threshold env)) lf0 ! (t - k)
                else cell b t j)"
    by blast
  have cellc: "cell (heap st' (buf v)) t ?c =
                 (if ?k \<le> t \<and> t < ?k + length lf0 then lf0 ! (t - ?k) else cell b t ?c)" for t
    using E by (simp add: Let_def)
  have celld: "cell (heap st' (buf v)) t (?c + 1) =
                 (if ?k \<le> t \<and> t < ?k + length lf0
                  then vuv_mask (ln (f0_silence_threshold env)) lf0 ! (t - ?k)
                  else cell b t (?c + 1))" for t
    using E by (simp add: Let_def)
  have lvm: "length (vuv_mask (ln (f0_silence_threshold env)) lf0) = length lf0"
    by (simp add: vuv_mask_def)
  have col1: "column st' v ?c = take ?k (buffer_column b ?c) @ lf0
               @ drop (?k + length lf0) (buffer_column b ?c)"
    unfolding column_def buffer_column_def ov nv
    by (rule stitched_column[OF le refl _ refl]) (simp add: cellc)
  have col2: "column st' v (?c + 1) = take ?k (buffer_column b (?c + 1))
               @ vuv_mask (ln (f0_silence_threshold env)) lf0
               @ drop (?k + length lf0) (buffer_column b (?c + 1))"
    unfolding column_def buffer_column_def ov nv
    by (rule stitched_column[OF le lvm _ refl]) (use celld in simp)
  from fo v nv col1 col2 show ?thesis by blast
qed

theorem run_atom_synth_stitches_window_witness:
  "synth_acoustic_model_path (hpar st0) = None
   \<and> get_recon_from_synth_output env0 [(''utt1'', label0)] (hpar st0)
       = Inr [(''utt1'', [3, - 1, 1 / 2])]
   \<and> map_of [(''utt1'', [3, - 1, 1 / 2 :: real])] ''utt1'' = Some [3, - 1, 1 / 2]
   \<and> world_load_sample env0 ''utt1'' (extracted_world_dir env0 (hpar st0))
        (num_coded_sps (hpar st0)) = Inr sample0
   \<and> length [3, - 1, 1 / 2 :: real] \<le> nrows sample0
   \<and> 0 \<le> num_coded_sps (hpar st0)
   \<and> (\<exists>d full_sample st'.
         run_atom_synth env0 [''utt1''] [(''utt1'', label0)] st0 = Inr (Some d, st')
       \<and> map_of d ''utt1'' = Some full_sample
       \<and> len full_sample = 5
       \<and> column st' full_sample 1 = [7, 3, - 1, 1 / 2, 7]
       \<and> column st' full_sample 2 = [7, 1, 0, 1, 7])"
proof -
  have path: "synth_acoustic_model_path (hpar st0) = None" by (simp add: st0_def hp0_def)
  have rec: "get_recon_from_synth_output env0 [(''utt1'', label0)] (hpar st0)
       = Inr [(''utt1'', [3, - 1, 1 / 2])]"
    by (simp add: run_atom_synth_def load_extracted_audio_features_def
      get_recon_from_synth_output_def recon_sample_def recon_label_def env0_def label0_def
      hp0_def st0_def sample0_def expand_dims_1_def py_len_def atoms_to_lf0_def add_phrase_def
      silence_def math_log_def Let_def upt_rec extracted_world_dir_def stitch_def
      trim_full_sample_def trim_end_sample_def int_half_def slice_from_def slice_upto_def
      slice_bound_def set_column_def py_index_def vuv_mask_def column_def
      returned_column_def)
  have lf0: "map_of [(''utt1'', [3, - 1, 1 / 2 :: real])] ''utt1'' = Some [3, - 1, 1 / 2]" by simp
  have b: "world_load_sample env0 ''utt1'' (extracted_world_dir env0 (hpar st0))
        (num_coded_sps (hpar st0)) = Inr sample0"
    by (simp add: env0_def)
  have le: "length [3, - 1, 1 / 2 :: real] \<le> nrows sample0" by (simp add: sample0_def)
  have c0: "0 \<le> num_coded_sps (hpar st0)" by (simp add: st0_def hp0_def)
  have "\<exists>fo st'. run_atom_synth env0 [''utt1''] [(''utt1'', label0)] st0 = Inr (fo, st')"
    by (simp add: run_atom_synth_def load_extracted_audio_features_def
      get_recon_from_synth_output_def recon_sample_def recon_label_def env0_def label0_def
      hp0_def st0_def sample0_def expand_dims_1_def py_len_def atoms_to_lf0_def add_phrase_def
      silence_def math_log_def Let_def upt_rec extracted_world_dir_def stitch_def
      trim_full_sample_def trim_end_sample_def int_half_def slice_from_def slice_upto_def
      slice_bound_def set_column_def py_index_def vuv_mask_def column_def
      returned_column_def)
  then obtain fo st' where run: "run_atom_synth env0 [''utt1''] [(''utt1'', label0)] st0 = Inr (fo, st')"
    by blast
  from run_atom_synth_stitches_window [OF run rec lf0 b le c0]
  obtain d full_sample where
    "fo = Some d" "map_of d ''utt1'' = Some full_sample" "len full_sample = nrows sample0"
    "column st' full_sample (nat (num_coded_sps (hpar st0)))
       = take ((nrows sample0 - length [3, - 1, 1 / 2 :: real]) div 2)
           (buffer_column sample0 (nat (num_coded_sps (hpar st0))))
         @ [3, - 1, 1 / 2]
         @ drop ((nrows sample0 - length [3, - 1, 1 / 2 :: real]) div 2 + length [3, - 1, 1 / 2 :: real])
             (buffer_column sample0 (nat (num_coded_sps (hpar st0))))"
    "column st' full_sample (nat (num_coded_sps (hpar st0)) + 1)
       = take ((nrows sample0 - length [3, - 1, 1 / 2 :: real]) div 2)
           (buffer_column sample0 (nat (num_coded_sps (hpar st0)) + 1))
         @ vuv_mask (ln (f0_silence_threshold env0)) [3, - 1, 1 / 2]
         @ drop ((nrows sample0 - length [3, - 1, 1 / 2 :: real]) div 2 + length [3, - 1, 1 / 2 :: real])
             (buffer_column sample0 (nat (num_coded_sps (hpar st0)) + 1))"
    by blast
  then have "fo = Some d \<and> map_of d ''utt1'' = Some full_sample
       \<and> len full_sample = 5
       \<and> column st' full_sample 1 = [7, 3, - 1, 1 / 2, 7]
       \<and> column st' full_sample 2 = [7, 1, 0, 1, 7]"
    by (simp add: st0_def hp0_def sample0_def buffer_column_def env0_def vuv_mask_def upt_rec
        numeral_2_eq_2)
  with run have "\<exists>d full_sample st'.
         run_atom_synth env0 [''utt1''] [(''utt1'', label0)] st0 = Inr (Some d, st')
       \<and> map_of d ''utt1'' = Some full_sample
       \<and> len full_sample = 5
       \<and> column st' full_sample 1 = [7, 3, - 1, 1 / 2, 7]
       \<and> column st' full_sample 2 = [7, 1, 0, 1, 7]"
    by blast
  with path rec lf0 b le c0 show ?thesis by blast
qed

text \<open>
  C1 as stated fails: with a loaded sample of five frames and a reconstructed lf0 of
  three, the column \<open>num_coded_sps\<close> of the returned matrix has five entries, the
  lf0 on its frames 1 to 3 and the loaded values on frames 0 and 4.
\<close>

theorem run_atom_synth_column_is_not_lf0:
  "get_recon_from_synth_output env0 [(''utt1'', label0)] (hpar st0) = Inr [(''utt1'', [3, - 1, 1 / 2])]
   \<and> returned_column env0 [''utt1''] [(''utt1'', label0)] st0 ''utt1'' (nat (num_coded_sps (hpar st0)))
       = Some [7, 3, - 1, 1 / 2, 7]
   \<and> returned_column env0 [''utt1''] [(''utt1'', label0)] st0 ''utt1'' (nat (num_coded_sps (hpar st0)))
       \<noteq> Some [3, - 1, 1 / 2]
   \<and> returned_column env0 [''utt1''] [(''utt1'', label0)] st0 ''utt1'' (nat (num_coded_sps (hpar st0) + 1))
       = Some [7, 1, 0, 1, 7]"
  by (simp add: run_atom_synth_def load_extracted_audio_features_def
      get_recon_from_synth_output_def recon_sample_def recon_label_def env0_def label0_def
      hp0_def st0_def sample0_def expand_dims_1_def py_len_def atoms_to_lf0_def add_phrase_def
      silence_def math_log_def Let_def upt_rec extracted_world_dir_def stitch_def
      trim_full_sample_def trim_end_sample_def int_half_def slice_from_def slice_upto_def
      slice_bound_def set_column_def py_index_def vuv_mask_def column_def
      returned_column_def)

text \<open>
  When the loaded sample and the reconstructed lf0 have the same number of frames, the
  two columns of the returned matrix are the lf0 and the mask themselves.
\<close>

lemma run_atom_synth_equal_lengths:
  assumes run: "run_atom_synth env file_id_list synth_output st = Inr (full_output, st')"
      and rec: "get_recon_from_synth_output env synth_output (hpar st) = Inr recon_dict"
      and lf0: "map_of recon_dict id_name = Some lf0"
      and b: "world_load_sample env id_name (extracted_world_dir env (hpar st))
                (num_coded_sps (hpar st)) = Inr b"
      and eq: "length lf0 = nrows b"
      and c0: "0 \<le> num_coded_sps (hpar st)"
  shows "\<exists>d full_sample.
           full_output = Some d \<and> map_of d id_name = Some full_sample
         \<and> column st' full_sample (nat (num_coded_sps (hpar st))) = lf0
         \<and> column st' full_sample (nat (num_coded_sps (hpar st)) + 1)
             = vuv_mask (ln (f0_silence_threshold env)) lf0"
proof -
  have le: "length lf0 \<le> nrows b" using eq by simp
  from run_atom_synth_cells[OF run rec lf0 b le c0] obtain d v where
    fo: "full_output = Some d" and v: "map_of d id_name = Some v" and
    ov: "off v = 0" and nv: "len v = nrows b" and
    E: "\<forall>t j. cell (heap st' (buf v)) t j =
               (let k = (nrows b - length lf0) div 2 in
                if k \<le> t \<and> t < k + length lf0 \<and> j = nat (num_coded_sps (hpar st))
                then lf0 ! (t - k)
                else if k \<le> t \<and> t < k + length lf0 \<and> j = nat (num_coded_sps (hpar st)) + 1
                then vuv_mask (ln (f0_silence_threshold env)) lf0 ! (t - k)
                else cell b t j)"
    by blast
  have "column st' v (nat (num_coded_sps (hpar st))) = lf0"
    unfolding column_def ov nv
    by (rule nth_equalityI) (use E eq in \<open>simp_all add: Let_def\<close>)
  moreover have "column st' v (nat (num_coded_sps (hpar st)) + 1)
                   = vuv_mask (ln (f0_silence_threshold env)) lf0"
    unfolding column_def ov nv
    by (rule nth_equalityI) (use E eq in \<open>simp_all add: Let_def vuv_mask_def\<close>)
  ultimately show ?thesis using fo v by blast
qed

subsection \<open>The voiced/unvoiced mask\<close>

lemma vuv_mask_values:
  "length (vuv_mask thr lf0) = length lf0"
  "t < length lf0 \<Longrightarrow> vuv_mask thr lf0 ! t = 0 \<or> vuv_mask thr lf0 ! t = 1"
  "t < length lf0 \<Longrightarrow> (vuv_mask thr lf0 ! t = 0) = (lf0 ! t \<le> thr)"
  by (simp_all add: vuv_mask_def)

text \<open>
  C10. The voiced/unvoiced values that the loop of \<open>run_atom_synth\<close> writes into the
  column \<open>num_coded_sps + 1\<close> of a full sample, one for each frame of the reconstructed
  lf0, are each 0 or 1, and a value is 0 exactly when the lf0 of its frame is at most
  \<open>log(f0_silence_threshold)\<close>.
\<close>

theorem stitch_writes_zero_one_vuv:
  assumes "stitch env full_output id_name lf0 st = Inr st'"
  shows "\<exists>full_sample st1.
           set_column full_sample (num_coded_sps (hpar st)) lf0 st = Inr st1
         \<and> set_column full_sample (num_coded_sps (hpar st) + 1)
               (vuv_mask (ln (f0_silence_threshold env)) lf0) st1 = Inr st'
         \<and> length (vuv_mask (ln (f0_silence_threshold env)) lf0) = length lf0
         \<and> (\<forall>t < length lf0.
               (vuv_mask (ln (f0_silence_threshold env)) lf0 ! t = 0
                  \<or> vuv_mask (ln (f0_silence_threshold env)) lf0 ! t = 1)
             \<and> ((vuv_mask (ln (f0_silence_threshold env)) lf0 ! t = 0)
                  = (lf0 ! t \<le> ln (f0_silence_threshold env))))"
proof -
  from assms obtain d v thr st1 where
    thr: "math_log (f0_silence_threshold env) = Inr thr" and
    s1: "set_column (trim_full_sample v (length lf0)) (num_coded_sps (hpar st)) lf0 st = Inr st1" and
    s2: "set_column (trim_full_sample v (length lf0)) (num_coded_sps (hpar st1) + 1)
           (vuv_mask thr lf0) st1 = Inr st'"
    by (auto simp: stitch_def Let_def split: sum.splits option.splits)
  from thr have thr_eq: "thr = ln (f0_silence_threshold env)"
    by (auto simp: math_log_def split: if_splits)
  have h1: "hpar st1 = hpar st" using set_column_frame(1)[OF s1] .
  have vals: "\<forall>t < length lf0.
               (vuv_mask (ln (f0_silence_threshold env)) lf0 ! t = 0
                  \<or> vuv_mask (ln (f0_silence_threshold env)) lf0 ! t = 1)
             \<and> ((vuv_mask (ln (f0_silence_threshold env)) lf0 ! t = 0)
                  = (lf0 ! t \<le> ln (f0_silence_threshold env)))"
    by (simp add: vuv_mask_def)
  have len: "length (vuv_mask (ln (f0_silence_threshold env)) lf0) = length lf0"
    by (simp add: vuv_mask_def)
  from s1 s2 vals len show ?thesis
    unfolding h1 thr_eq by blast
qed

theorem stitch_writes_zero_one_vuv_witness:
  "\<exists>st' full_sample st1.
      stitch env0 (Some full_output0) ''utt1'' [3, - 1, 1 / 2] st0_loaded = Inr st'
    \<and> set_column full_sample 1 [3, - 1, 1 / 2] st0_loaded = Inr st1
    \<and> set_column full_sample 2 [1, 0, 1] st1 = Inr st'"
proof -
  have "\<exists>st'. stitch env0 (Some full_output0) ''utt1'' [3, - 1, 1 / 2] st0_loaded = Inr st'"
    by (simp add: eval_defs)
  then obtain st' where s: "stitch env0 (Some full_output0) ''utt1'' [3, - 1, 1 / 2] st0_loaded = Inr st'"
    by blast
  from stitch_writes_zero_one_vuv [OF s] obtain full_sample st1 where
    "set_column full_sample (num_coded_sps (hpar st0_loaded)) [3, - 1, 1 / 2] st0_loaded = Inr st1"
    "set_column full_sample (num_coded_sps (hpar st0_loaded) + 1)
               (vuv_mask (ln (f0_silence_threshold env0)) [3, - 1, 1 / 2]) st1 = Inr st'"
    by blast
  moreover have "num_coded_sps (hpar st0_loaded) = 1"
    by (simp add: st0_loaded_def st0_def hp0_def)
  moreover have "vuv_mask (ln (f0_silence_threshold env0)) [3, - 1, 1 / 2] = [1, 0, 1]"
    by (simp add: vuv_mask_def env0_def)
  ultimately have "set_column full_sample 1 [3, - 1, 1 / 2] st0_loaded = Inr st1
    \<and> set_column full_sample 2 [1, 0, 1] st1 = Inr st'"
    by simp
  with s show ?thesis by blast
qed

text \<open>
  In the matrix that \<open>run_atom_synth\<close> returns, on every stitched frame, the entry of
  the column \<open>num_coded_sps + 1\<close> is 0 or 1, and it is 0 exactly when the entry of the
  column \<open>num_coded_sps\<close> in the same row is at most \<open>log(f0_silence_threshold)\<close>.
\<close>

lemma run_atom_synth_vuv_rows:
  assumes run: "run_atom_synth env file_id_list synth_output st = Inr (full_output, st')"
      and rec: "get_recon_from_synth_output env synth_output (hpar st) = Inr recon_dict"
      and lf0: "map_of recon_dict id_name = Some lf0"
      and b: "world_load_sample env id_name (extracted_world_dir env (hpar st))
                (num_coded_sps (hpar st)) = Inr b"
      and le: "length lf0 \<le> nrows b"
      and c0: "0 \<le> num_coded_sps (hpar st)"
      and t: "t < length lf0"
  shows "\<exists>d full_sample.
           full_output = Some d \<and> map_of d id_name = Some full_sample
         \<and> (let row = (nrows b - length lf0) div 2 + t;
                  lf0_entry = column st' full_sample (nat (num_coded_sps (hpar st))) ! row;
                  vuv_entry = column st' full_sample (nat (num_coded_sps (hpar st)) + 1) ! row
              in (vuv_entry = 0 \<or> vuv_entry = 1)
               \<and> ((vuv_entry = 0) = (lf0_entry \<le> ln (f0_silence_threshold env))))"
proof -
  let ?k = "(nrows b - length lf0) div 2"
  from run_atom_synth_cells[OF run rec lf0 b le c0] obtain d v where
    fo: "full_output = Some d" and v: "map_of d id_name = Some v" and
    ov: "off v = 0" and nv: "len v = nrows b" and
    E: "\<forall>t j. cell (heap st' (buf v)) t j =
               (let k = ?k in
                if k \<le> t \<and> t < k + length lf0 \<and> j = nat (num_coded_sps (hpar st))
                then lf0 ! (t - k)
                else if k \<le> t \<and> t < k + length lf0 \<and> j = nat (num_coded_sps (hpar st)) + 1
                then vuv_mask (ln (f0_silence_threshold env)) lf0 ! (t - k)
                else cell b t j)"
    by blast
  have row: "?k + t < nrows b" using le t by simp
  have l: "column st' v (nat (num_coded_sps (hpar st))) ! (?k + t) = lf0 ! t"
    using E row t by (simp add: column_def ov nv Let_def)
  have u: "column st' v (nat (num_coded_sps (hpar st)) + 1) ! (?k + t)
             = vuv_mask (ln (f0_silence_threshold env)) lf0 ! t"
    using E row t by (simp add: column_def ov nv Let_def)
  have "(vuv_mask (ln (f0_silence_threshold env)) lf0 ! t = 0
            \<or> vuv_mask (ln (f0_silence_threshold env)) lf0 ! t = 1)
      \<and> ((vuv_mask (ln (f0_silence_threshold env)) lf0 ! t = 0)
            = (lf0 ! t \<le> ln (f0_silence_threshold env)))"
    using t by (simp add: vuv_mask_def)
  with fo v l u show ?thesis by (auto simp: Let_def)
qed

subsection \<open>The hyper-parameters are left alone\<close>

lemma stitch_hpar: "stitch env full_output id_name lf0 st = Inr st' \<Longrightarrow> hpar st' = hpar st"
proof -
  assume a: "stitch env full_output id_name lf0 st = Inr st'"
  then obtain d where d: "full_output = Some d" by (cases full_output) (auto simp: stitch_def)
  from a stitch_Inr_lookup[OF a[unfolded d]] obtain v where "map_of d id_name = Some v" by blast
  from stitch_frame(1)[OF a[unfolded d] this] show ?thesis .
qed

lemma stitch_loop_hpar:
  "stitch_loop env full_output items st = Inr st' \<Longrightarrow> hpar st' = hpar st"
proof (induction items arbitrary: st)
  case Nil
  then show ?case by simp
next
  case (Cons p items)
  obtain i l where p: "p = (i, l)" by (cases p)
  from Cons.prems obtain st1 where s: "stitch env full_output i l st = Inr st1"
    and rest: "stitch_loop env full_output items st1 = Inr st'"
    by (auto simp: p split: sum.splits)
  show ?case using Cons.IH[OF rest] stitch_hpar[OF s] by simp
qed

lemma load_loop_hpar:
  "load_loop env ids org st = Inr (d, st1) \<Longrightarrow> hpar st1 = hpar st"
proof (induction ids arbitrary: org st)
  case Nil
  then show ?case by simp
next
  case (Cons i ids)
  from Cons.prems obtain b where
    rest: "load_loop env ids
            (AList.update i \<lparr>buf = fresh st, off = 0, len = nrows b\<rparr> org)
            (st\<lparr>heap := (heap st)(fresh st := b), fresh := Suc (fresh st)\<rparr>) = Inr (d, st1)"
    by (auto split: sum.splits)
  from Cons.IH[OF rest] show ?case by simp
qed

lemma run_atom_synth_hpar:
  assumes "run_atom_synth env file_id_list synth_output st = Inr (full_output, st')"
  shows "hpar st' = hpar st"
proof (cases "synth_acoustic_model_path (hpar st) = None")
  case True
  with assms obtain d st1 recon_dict where
    load: "load_loop env (map fst synth_output) [] st = Inr (d, st1)" and
    loop: "stitch_loop env full_output recon_dict st1 = Inr st'"
    by (auto simp: run_atom_synth_def load_extracted_audio_features_def split: sum.splits)
  from load_loop_hpar[OF load] stitch_loop_hpar[OF loop] show ?thesis by simp
next
  case False
  with assms obtain w recon_dict where
    loop: "stitch_loop env full_output recon_dict (st\<lparr>world := w\<rparr>) = Inr st'"
    by (auto simp: run_atom_synth_def generate_audio_features_def split: sum.splits option.splits)
  from stitch_loop_hpar[OF loop] show ?thesis by simp
qed

lemma phrase_loop_hpar:
  "phrase_loop env full_output ids st = Inr st' \<Longrightarrow> hpar st' = hpar st"
proof (induction ids arbitrary: st)
  case Nil
  then show ?case by simp
next
  case (Cons i ids)
  from Cons.prems obtain labels content st1 where
    s: "set_column labels (- 3) (take (len labels) (take (len labels) content)) st = Inr st1" and
    rest: "phrase_loop env full_output ids st1 = Inr st'"
    by (auto simp: Let_def split: sum.splits option.splits)
  from Cons.IH[OF rest] set_column_frame(1)[OF s] show ?case by simp
qed

text \<open>
  C8. When \<open>synth_ref_wcad\<close> returns, and when \<open>synth_phrase\<close> returns, the file
  suffix of the hyper-parameters is the one from before the call, whatever the vocoder
  did to the hyper-parameters in between.
\<close>

theorem synth_file_suffix_restored:
  "(\<forall>st'. synth_ref_wcad env file_id_list st = Inr st'
          \<longrightarrow> synth_file_suffix (hpar st') = synth_file_suffix (hpar st))
   \<and> (\<forall>st'. synth_phrase env file_id_list st = Inr st'
          \<longrightarrow> synth_file_suffix (hpar st') = synth_file_suffix (hpar st))"
proof (intro conjI allI impI)
  fix st' assume a: "synth_ref_wcad env file_id_list st = Inr st'"
  then obtain synth_output full_output st1 st3 where
    run: "run_atom_synth env file_id_list synth_output st = Inr (full_output, st1)" and
    fin: "st' = set_suffix (synth_file_suffix (hpar st1)) st3"
    by (auto simp: synth_ref_wcad_def Let_def split: sum.splits)
  from run_atom_synth_hpar[OF run] fin
  show "synth_file_suffix (hpar st') = synth_file_suffix (hpar st)"
    by (simp add: set_suffix_def)
next
  fix st' assume a: "synth_phrase env file_id_list st = Inr st'"
  then obtain full_output st1 st2 st4 where
    load: "load_loop env (map fst (empty_synth_output file_id_list)) [] st = Inr (full_output, st1)" and
    ph: "phrase_loop env full_output file_id_list st1 = Inr st2" and
    fin: "st' = set_suffix (synth_file_suffix (hpar st2)) st4"
    by (auto simp: synth_phrase_def load_extracted_audio_features_def Let_def split: sum.splits)
  from load_loop_hpar[OF load] phrase_loop_hpar[OF ph] fin
  show "synth_file_suffix (hpar st') = synth_file_suffix (hpar st)"
    by (simp add: set_suffix_def)
qed

theorem synth_file_suffix_restored_witness:
  "(\<exists>st'. synth_ref_wcad env0 [''utt1''] st0 = Inr st'
         \<and> synth_file_suffix (hpar st') = ''_x''
         \<and> map snd (world st') = [''_x_wcad_ref''])
   \<and> (\<exists>st'. synth_phrase env0 [''utt2''] st0 = Inr st'
         \<and> synth_file_suffix (hpar st') = ''_x''
         \<and> map snd (world st') = [''_x_phrase''])"
proof -
  have la: "atom_load_sample env0 ''utt1'' (length (thetas (hpar st0))) = Inr label0"
    by (simp add: env0_def st0_def hp0_def label0_def)
  have rw: "run_world_synth env0 fo st
              = Inr (st\<lparr>world := world st @ [(fo, synth_file_suffix (hpar st))]\<rparr>)" for fo st
    by (simp add: env0_def)
  have "\<exists>st1. run_atom_synth env0 [''utt1''] [(''utt1'', label0)] st0
                 = Inr (Some full_output0, st1)
           \<and> world st1 = [] \<and> synth_file_suffix (hpar st1) = ''_x''"
    by (simp add: eval_defs)
  then obtain st1 where
    r1: "run_atom_synth env0 [''utt1''] [(''utt1'', label0)] st0 = Inr (Some full_output0, st1)"
    and w: "world st1 = []" and x: "synth_file_suffix (hpar st1) = ''_x''"
    by blast
  have "\<exists>st'. synth_ref_wcad env0 [''utt1''] st0 = Inr st'
           \<and> map snd (world st') = [''_x_wcad_ref'']"
    by (simp add: synth_ref_wcad_def la r1 rw set_suffix_def w x Let_def)
  then obtain sta where 1: "synth_ref_wcad env0 [''utt1''] st0 = Inr sta"
    and w1: "map snd (world sta) = [''_x_wcad_ref'']" by (elim exE conjE)
  have "\<exists>st'. synth_phrase env0 [''utt2''] st0 = Inr st'
           \<and> map snd (world st') = [''_x_phrase'']"
    by (simp add: synth_phrase_def load_extracted_audio_features_def empty_synth_output_def
        env0_def st0_def hp0_def sample0_def extracted_world_dir_def set_column_def py_index_def
        set_suffix_def Let_def)
  then obtain stb where 2: "synth_phrase env0 [''utt2''] st0 = Inr stb"
    and w2: "map snd (world stb) = [''_x_phrase'']" by (elim exE conjE)
  have s0: "synth_file_suffix (hpar st0) = ''_x''" by (simp add: st0_def hp0_def)
  from synth_file_suffix_restored [of env0 "[''utt1'']" st0] 1
  have a: "synth_file_suffix (hpar sta) = ''_x''" by (simp add: s0)
  from synth_file_suffix_restored [of env0 "[''utt2'']" st0] 2
  have b: "synth_file_suffix (hpar stb) = ''_x''" by (simp add: s0)
  from 1 w1 a have "\<exists>st'. synth_ref_wcad env0 [''utt1''] st0 = Inr st'
         \<and> synth_file_suffix (hpar st') = ''_x''
         \<and> map snd (world st') = [''_x_wcad_ref'']"
    by (intro exI[of _ sta] conjI)
  moreover from 2 w2 b have "\<exists>st'. synth_phrase env0 [''utt2''] st0 = Inr st'
         \<and> synth_file_suffix (hpar st') = ''_x''
         \<and> map snd (world st') = [''_x_phrase'']"
    by (intro exI[of _ stb] conjI)
  ultimately show ?thesis by (rule conjI)
qed

subsection \<open>Synthesis\<close>

text \<open>
  When the features are loaded from the extracted files and \<open>synthesize\<close> returns, the
  vocoder has been run on the dictionary that \<open>run_atom_synth\<close> returned, which holds a
  matrix for every id of \<open>synth_output\<close>.
\<close>

lemma synthesize_loaded_vocoder_input:
  assumes syn: "synthesize env id_list synth_output st = Inr st'"
      and path: "synth_acoustic_model_path (hpar st) = None"
  shows "\<exists>d st1.
           run_atom_synth env id_list synth_output st = Inr (Some d, st1)
         \<and> run_world_synth env (Some d) st1 = Inr st'
         \<and> (\<forall>id_name \<in> fst ` set synth_output. map_of d id_name \<noteq> None)"
proof -
  from syn obtain fo st1 where
    run: "run_atom_synth env id_list synth_output st = Inr (fo, st1)" and
    voc: "run_world_synth env fo st1 = Inr st'"
    by (auto simp: synthesize_def split: sum.splits)
  from run path obtain d st0 where
    load: "load_loop env (map fst synth_output) [] st = Inr (d, st0)" and
    fo: "fo = Some d"
    by (auto simp: run_atom_synth_def load_extracted_audio_features_def split: sum.splits)
  have wf0: "wf_dict [] st" by (simp add: wf_dict_def separate_def)
  from load_loop_Inr[OF load wf0]
  have "\<forall>i \<in> set (map fst synth_output). \<exists>v. map_of d i = Some v" by blast
  then have "\<forall>id_name \<in> fst ` set synth_output. map_of d id_name \<noteq> None" by auto
  with run voc fo show ?thesis by blast
qed

text \<open>
  C6. With \<open>synth_acoustic_model_path\<close> set, \<open>run_atom_synth\<close> has no features to
  return: for one utterance \<open>synthesize\<close> raises \<open>TypeError\<close> and the vocoder is not
  run, and for none the vocoder is run on \<open>None\<close>. With the path unset the vocoder is
  run on the dictionary of the stitched matrices.
\<close>

theorem synthesize_vocoder_without_features:
  "synthesize env0 [''utt1''] [(''utt1'', label0)] st0_acoustic = Inl TypeError
   \<and> map_sum id world (synthesize env0 [] [] st0_acoustic) = Inr [(None, ''_x'')]
   \<and> map_sum id world (synthesize env0 [''utt1''] [(''utt1'', label0)] st0)
       = Inr [(Some full_output0, ''_x'')]"
  by (simp add: synthesize_def eval_defs generate_audio_features_def)

subsection \<open>The source of the spectral features\<close>

lemma run_atom_synth_loads_extracted:
  assumes "synth_acoustic_model_path (hpar st) = None"
      and "run_atom_synth env file_id_list synth_output st = Inr (full_output, st')"
  shows "\<exists>d st1. load_extracted_audio_features env synth_output st = Inr (d, st1)
                \<and> full_output = Some d"
  using assms by (auto simp: run_atom_synth_def split: sum.splits)

lemma run_atom_synth_generate_raises:
  assumes "synth_acoustic_model_path (hpar st) = Some path"
      and "acoustic_synth env path (hpar st) file_id_list (world st) = Inr w"
      and "get_recon_from_synth_output env synth_output (hpar st) = Inr recon_dict"
      and "recon_dict \<noteq> []"
  shows "run_atom_synth env file_id_list synth_output st = Inl TypeError"
  using assms
  by (cases recon_dict) (auto simp: run_atom_synth_def generate_audio_features_def stitch_def)

text \<open>
  C7. With \<open>synth_acoustic_model_path\<close> set, \<open>run_atom_synth\<close> calls
  \<open>generate_audio_features\<close>, whose result is \<open>None\<close>: for one utterance the call
  raises \<open>TypeError\<close> at \<open>full_output[id_name]\<close>, and for none it returns \<open>None\<close>
  instead of features.
\<close>

theorem run_atom_synth_generated_features_missing:
  "map_sum id fst (generate_audio_features env0 [''utt1''] st0_acoustic) = Inr None
   \<and> run_atom_synth env0 [''utt1''] [(''utt1'', label0)] st0_acoustic = Inl TypeError
   \<and> map_sum id fst (run_atom_synth env0 [] [] st0_acoustic) = Inr None"
  by (simp add: eval_defs generate_audio_features_def)

subsection \<open>The constructor's weights\<close>

text \<open>
  C9. In the constructor, with \<open>p = min(0.99, 0.02 / len(thetas))\<close>: when the
  hyper-parameters have no attribute \<open>weight_zero\<close>, or have it with the value
  \<open>None\<close>, \<open>weight_non_zero\<close> is set to \<open>1 / p\<close> and \<open>weight_zero\<close> to \<open>1 / (1 - p)\<close>;
  when \<open>weight_zero\<close> is there and is not \<open>None\<close>, the hyper-parameters are left as
  they are.
\<close>

theorem init_weights_sets_or_keeps:
  assumes "ths \<noteq> []"
  shows "(weight_zero hp = None \<or> weight_zero hp = Some None \<longrightarrow>
            init_weights ths hp =
              Inr (hp\<lparr>weight_non_zero := Some (Some (1 / min 0.99 (0.02 / real (length ths)))),
                      weight_zero :=
                        Some (Some (1 / (1 - min 0.99 (0.02 / real (length ths)))))\<rparr>))
       \<and> (\<forall>w. weight_zero hp = Some (Some w) \<longrightarrow> init_weights ths hp = Inr hp)"
  using assms
  by (auto simp: init_weights_def non_zero_occurrence_def Let_def
        add_hparam_weight_zero_def add_hparam_weight_non_zero_def)

theorem init_weights_sets_or_keeps_witness:
  "[0.5, 1::real] \<noteq> [] \<and> weight_zero hp0 = None \<and>
   init_weights [0.5, 1] hp0 =
     Inr (hp0\<lparr>weight_non_zero := Some (Some 100), weight_zero := Some (Some (100 / 99))\<rparr>)
   \<and> init_weights [0.5, 1] (hp0\<lparr>weight_zero := Some (Some 2)\<rparr>)
       = Inr (hp0\<lparr>weight_zero := Some (Some 2)\<rparr>)"
  using init_weights_sets_or_keeps [of "[0.5, 1]" hp0]
        init_weights_sets_or_keeps [of "[0.5, 1]" "hp0\<lparr>weight_zero := Some (Some 2)\<rparr>"]
  by (simp add: hp0_def)

end
